theory Spec2Isabelle
  imports Main "HOL-Library.Word" "HOL-Library.Monad_Syntax"
begin

unbundle bit_operations_syntax

section \<open>Embedding of validator/val\_sigcrypt.c\<close>

text \<open>
  The C functions of \<^verbatim>\<open>validator/val_sigcrypt.c\<close> are translated one by one, under
  their own names. A function returns \<open>None\<close> where the C program has no defined
  result: a failed assertion, a dereferenced \<^verbatim>\<open>NULL\<close>, or a read or write outside
  the memory object a pointer points into. Logging (\<^verbatim>\<open>verbose\<close>, \<^verbatim>\<open>log_err\<close>) has no
  effect on results and is left out.

  A pointer together with its length (\<^verbatim>\<open>rr_data[i]\<close> with \<^verbatim>\<open>rr_len[i]\<close>, \<^verbatim>\<open>dname\<close> with
  \<^verbatim>\<open>dname_len\<close>) is a byte list: the length field is the length of the list. A pointer
  into such an object that is handed to a callee is the part of the list from the
  pointer onwards. Every entry of \<^verbatim>\<open>rr_data\<close> is a memory object of its own.
\<close>

subsection \<open>Bytes, host integers and their memory representation\<close>

type_synonym byte = "8 word"

text \<open>\<^verbatim>\<open>size_t\<close> is \<open>nat\<close>; a subtraction that can go below zero wraps modulo
  \<open>2 ^ bits\<close>, \<open>bits\<close> being the width of \<^verbatim>\<open>size_t\<close> on the platform.\<close>

definition size_sub :: "nat \<Rightarrow> nat \<Rightarrow> nat \<Rightarrow> nat" where
  "size_sub bits a b = (if b \<le> a then a - b else a + 2 ^ bits - b)"

definition nth_opt :: "'a list \<Rightarrow> nat \<Rightarrow> 'a option" where
  "nth_opt xs i = (if i < length xs then Some (xs ! i) else None)"

text \<open>The memory from offset \<open>off\<close> of an object onwards (a pointer \<^verbatim>\<open>p + off\<close> that stays
  inside the object or one past its end).\<close>

definition mem_from :: "byte list \<Rightarrow> nat \<Rightarrow> byte list option" where
  "mem_from m off = (if off \<le> length m then Some (drop off m) else None)"

text \<open>\<^verbatim>\<open>memmove(&t, p, 2)\<close> into a \<^verbatim>\<open>uint16_t\<close>, and the bytes of a \<^verbatim>\<open>uint16_t\<close> in
  memory, on a little-endian (\<open>le\<close>) or big-endian host.\<close>

definition load16 :: "bool \<Rightarrow> byte list \<Rightarrow> 16 word option" where
  "load16 le m = (case m of
      b0 # b1 # _ \<Rightarrow> Some (if le then push_bit 8 (ucast b1) OR ucast b0
                               else push_bit 8 (ucast b0) OR ucast b1)
    | _ \<Rightarrow> None)"

definition mem16 :: "bool \<Rightarrow> 16 word \<Rightarrow> byte list" where
  "mem16 le w = (if le then [ucast w, ucast (drop_bit 8 w)]
                 else [ucast (drop_bit 8 w), ucast w])"

definition load32 :: "bool \<Rightarrow> byte list \<Rightarrow> 32 word option" where
  "load32 le m = (case m of
      b0 # b1 # b2 # b3 # _ \<Rightarrow>
        Some (if le
          then push_bit 24 (ucast b3) OR push_bit 16 (ucast b2) OR push_bit 8 (ucast b1) OR ucast b0
          else push_bit 24 (ucast b0) OR push_bit 16 (ucast b1) OR push_bit 8 (ucast b2) OR ucast b3)
    | _ \<Rightarrow> None)"

definition bswap16 :: "16 word \<Rightarrow> 16 word" where
  "bswap16 w = push_bit 8 w OR drop_bit 8 w"

definition bswap32 :: "32 word \<Rightarrow> 32 word" where
  "bswap32 w = push_bit 24 w OR push_bit 16 (take_bit 8 (drop_bit 8 w))
               OR push_bit 8 (take_bit 8 (drop_bit 16 w)) OR drop_bit 24 w"

definition ntohs :: "bool \<Rightarrow> 16 word \<Rightarrow> 16 word" where
  "ntohs le w = (if le then bswap16 w else w)"

definition htons :: "bool \<Rightarrow> 16 word \<Rightarrow> 16 word" where
  "htons le w = (if le then bswap16 w else w)"

definition ntohl :: "bool \<Rightarrow> 32 word \<Rightarrow> 32 word" where
  "ntohl le w = (if le then bswap32 w else w)"

text \<open>\<^verbatim>\<open>tolower\<close> of the C library in the C locale.\<close>

definition tolower :: "byte \<Rightarrow> byte" where
  "tolower c = (if 0x41 \<le> c \<and> c \<le> 0x5A then c + 0x20 else c)"

subsection \<open>Data model\<close>

text \<open>Modelled from the spec: the verdict type \<^verbatim>\<open>enum sec_status\<close> is declared in a
  header that is not part of the source; the spec gives its three values used here.\<close>

datatype sec_status = sec_status_unchecked | sec_status_bogus | sec_status_secure

text \<open>\<^verbatim>\<open>struct packed_rrset_key\<close>: \<open>type\<close> and \<open>rrset_class\<close> are host integers that
  hold the wire value in network byte order.\<close>

record packed_rrset_key =
  dname :: "byte list"
  type :: "16 word"
  rrset_class :: "16 word"

record packed_rrset_data =
  count :: nat
  rrsig_count :: nat
  rr_data :: "byte list list"

text \<open>\<^verbatim>\<open>struct ub_packed_rrset_key\<close>: \<open>entry_data\<close> is the pointer \<^verbatim>\<open>entry.data\<close>, \<open>None\<close>
  when it is \<^verbatim>\<open>NULL\<close>.\<close>

record ub_packed_rrset_key =
  rk :: packed_rrset_key
  entry_data :: "packed_rrset_data option"

definition dname_len :: "packed_rrset_key \<Rightarrow> nat" where
  "dname_len k = length (dname k)"

definition rr_len :: "packed_rrset_data \<Rightarrow> nat \<Rightarrow> nat option" where
  "rr_len d i = map_option length (nth_opt (rr_data d) i)"

text \<open>The scratch buffer \<^verbatim>\<open>ldns_buffer\<close>: its capacity is the length of \<open>b_data\<close>.\<close>

record ldns_buffer =
  b_data :: "byte list"
  b_position :: nat
  b_limit :: nat

text \<open>The memory a call works on: the rrsets by address (\<^verbatim>\<open>struct ub_packed_rrset_key*\<close>
  is an address, so that the rrset and the key set of a call may be the same object)
  and the scratch buffer of the module environment.\<close>

record state =
  heap :: "nat \<Rightarrow> ub_packed_rrset_key option"
  scratch_buffer :: ldns_buffer

record val_env =
  date_override :: "32 word"

text \<open>
  What the file takes from its build and from the code it calls: the byte order of the
  host, whether assertions (\<^verbatim>\<open>log_assert\<close>) are compiled in, the width of \<^verbatim>\<open>size_t\<close>,
  the clock \<^verbatim>\<open>time(0)\<close>, whether \<^verbatim>\<open>region_alloc\<close> of a size succeeds, the hash
  functions, the keytag function of ldns and the dname functions of
  \<^verbatim>\<open>util/data/dname.c\<close>. A function that reads memory through a pointer takes the
  memory from the pointer to the end of its object, and gives \<open>None\<close> when it reads past
  that end; \<open>query_dname_tolower\<close>, which writes in place, gives the new contents of
  that memory.
\<close>

record externs =
  little_endian :: bool
  UNBOUND_DEBUG :: bool
  size_t_bits :: nat
  time_now :: int
  region_alloc :: "nat \<Rightarrow> bool"
  SHA1 :: "byte list \<Rightarrow> byte list"
  SHA256 :: "byte list \<Rightarrow> byte list"
  ldns_calc_keytag_raw :: "byte list \<Rightarrow> 16 word"
  dname_valid :: "byte list \<Rightarrow> nat \<Rightarrow> nat option"
  query_dname_compare :: "byte list \<Rightarrow> byte list \<Rightarrow> int option"
  dname_signame_label_count :: "byte list \<Rightarrow> int option"
  dname_remove_label :: "byte list \<Rightarrow> nat \<Rightarrow> (byte list \<times> nat) option"
  query_dname_tolower :: "byte list \<Rightarrow> byte list option"

definition log_assert :: "externs \<Rightarrow> bool \<Rightarrow> unit option" where
  "log_assert x c = (if UNBOUND_DEBUG x then (if c then Some () else None) else Some ())"

text \<open>Modelled from the spec: constants of headers that are not part of the source.
  The ZSK bit is flags bit 0x0100; the DS digest types are 1 for SHA-1 and 2 for
  SHA-256, the digests of which have 20 and 32 bytes (both \<^verbatim>\<open>#ifdef\<close> branches of the
  source are compiled in); the supported DNSKEY algorithms are RSAMD5 (1), DSA (3),
  RSASHA1 (5), DSA-NSEC3-SHA1 (6) and RSASHA1-NSEC3-SHA1 (7).\<close>

definition DNSKEY_BIT_ZSK :: "16 word" where "DNSKEY_BIT_ZSK = 0x0100"
definition LDNS_RSAMD5 :: int where "LDNS_RSAMD5 = 1"
definition LDNS_DSA :: int where "LDNS_DSA = 3"
definition LDNS_RSASHA1 :: int where "LDNS_RSASHA1 = 5"
definition LDNS_DSA_NSEC3 :: int where "LDNS_DSA_NSEC3 = 6"
definition LDNS_RSASHA1_NSEC3 :: int where "LDNS_RSASHA1_NSEC3 = 7"
definition LDNS_SHA1 :: int where "LDNS_SHA1 = 1"
definition LDNS_SHA256 :: int where "LDNS_SHA256 = 2"
definition SHA_DIGEST_LENGTH :: nat where "SHA_DIGEST_LENGTH = 20"
definition SHA256_DIGEST_LENGTH :: nat where "SHA256_DIGEST_LENGTH = 32"

subsection \<open>Accessors\<close>

definition get_data :: "state \<Rightarrow> nat \<Rightarrow> packed_rrset_data option" where
  "get_data s k = do { key \<leftarrow> heap s k; entry_data key }"

definition rrset_get_count :: "state \<Rightarrow> nat \<Rightarrow> nat option" where
  "rrset_get_count s rrset = do {
     key \<leftarrow> heap s rrset;
     (case entry_data key of None \<Rightarrow> Some 0 | Some d \<Rightarrow> Some (count d))
   }"

definition rrset_get_sigcount :: "state \<Rightarrow> nat \<Rightarrow> nat option" where
  "rrset_get_sigcount s k = do { d \<leftarrow> get_data s k; Some (rrsig_count d) }"

definition rrset_get_sig_keytag :: "externs \<Rightarrow> state \<Rightarrow> nat \<Rightarrow> nat \<Rightarrow> 16 word option" where
  "rrset_get_sig_keytag x s k sig_idx = do {
     d \<leftarrow> get_data s k;
     _ \<leftarrow> log_assert x (sig_idx < rrsig_count d);
     rr \<leftarrow> nth_opt (rr_data d) (count d + sig_idx);
     if length rr < 2 + 18 then Some 0
     else load16 (little_endian x) (drop (2 + 16) rr)
   }"

definition rrset_get_sig_algo :: "externs \<Rightarrow> state \<Rightarrow> nat \<Rightarrow> nat \<Rightarrow> int option" where
  "rrset_get_sig_algo x s k sig_idx = do {
     d \<leftarrow> get_data s k;
     _ \<leftarrow> log_assert x (sig_idx < rrsig_count d);
     rr \<leftarrow> nth_opt (rr_data d) (count d + sig_idx);
     if length rr < 2 + 3 then Some 0
     else Some (uint (rr ! (2 + 2)))
   }"

text \<open>\<^verbatim>\<open>rrset_get_rdata\<close> gives the pointer \<^verbatim>\<open>rr_data[idx]\<close> and the length
  \<^verbatim>\<open>rr_len[idx]\<close>: the entry as a byte list.\<close>

definition rrset_get_rdata :: "externs \<Rightarrow> state \<Rightarrow> nat \<Rightarrow> nat \<Rightarrow> byte list option" where
  "rrset_get_rdata x s k idx = do {
     key \<leftarrow> heap s k;
     _ \<leftarrow> log_assert x (case entry_data key of None \<Rightarrow> False
                          | Some d \<Rightarrow> idx < count d + rrsig_count d);
     d \<leftarrow> entry_data key;
     nth_opt (rr_data d) idx
   }"

definition dnskey_get_flags :: "externs \<Rightarrow> state \<Rightarrow> nat \<Rightarrow> nat \<Rightarrow> 16 word option" where
  "dnskey_get_flags x s k idx = do {
     rdata \<leftarrow> rrset_get_rdata x s k idx;
     if length rdata < 2 + 2 then Some 0
     else do {
       f \<leftarrow> load16 (little_endian x) (drop 2 rdata);
       Some (ntohs (little_endian x) f)
     }
   }"

definition dnskey_get_algo :: "externs \<Rightarrow> state \<Rightarrow> nat \<Rightarrow> nat \<Rightarrow> int option" where
  "dnskey_get_algo x s k idx = do {
     rdata \<leftarrow> rrset_get_rdata x s k idx;
     if length rdata < 2 + 4 then Some 0
     else Some (uint (rdata ! (2 + 3)))
   }"

definition ds_get_key_algo :: "externs \<Rightarrow> state \<Rightarrow> nat \<Rightarrow> nat \<Rightarrow> int option" where
  "ds_get_key_algo x s k idx = do {
     rdata \<leftarrow> rrset_get_rdata x s k idx;
     if length rdata < 2 + 3 then Some 0
     else Some (uint (rdata ! (2 + 2)))
   }"

definition ds_get_digest_algo :: "externs \<Rightarrow> state \<Rightarrow> nat \<Rightarrow> nat \<Rightarrow> int option" where
  "ds_get_digest_algo x s k idx = do {
     rdata \<leftarrow> rrset_get_rdata x s k idx;
     if length rdata < 2 + 4 then Some 0
     else Some (uint (rdata ! (2 + 3)))
   }"

definition ds_get_keytag :: "externs \<Rightarrow> state \<Rightarrow> nat \<Rightarrow> nat \<Rightarrow> 16 word option" where
  "ds_get_keytag x s ds_rrset ds_idx = do {
     rdata \<leftarrow> rrset_get_rdata x s ds_rrset ds_idx;
     if length rdata < 2 + 2 then Some 0
     else load16 (little_endian x) (drop 2 rdata)
   }"

text \<open>\<^verbatim>\<open>ds_get_sigdata\<close> gives the digest pointer, \<open>None\<close> for \<^verbatim>\<open>NULL\<close>, and its length.\<close>

definition ds_get_sigdata :: "externs \<Rightarrow> state \<Rightarrow> nat \<Rightarrow> nat \<Rightarrow> (byte list option \<times> nat) option" where
  "ds_get_sigdata x s k idx = do {
     rdata \<leftarrow> rrset_get_rdata x s k idx;
     if length rdata < 2 + 5 then Some (None, 0)
     else Some (Some (drop (2 + 4) rdata), length rdata - 2 - 4)
   }"

definition ds_digest_size_algo :: "externs \<Rightarrow> state \<Rightarrow> nat \<Rightarrow> nat \<Rightarrow> nat option" where
  "ds_digest_size_algo x s k idx = do {
     a \<leftarrow> ds_get_digest_algo x s k idx;
     if a = LDNS_SHA1 then Some SHA_DIGEST_LENGTH
     else if a = LDNS_SHA256 then Some SHA256_DIGEST_LENGTH
     else Some 0
   }"

subsection \<open>The scratch buffer\<close>

text \<open>Modelled from the spec: the scratch-buffer primitives (clear, write, flip, begin,
  current, limit) belong to the ldns library, which is not part of the source. A write
  that does not fit between the position and the limit, or that reads more bytes than
  its source object holds, has no defined result.\<close>

definition ldns_buffer_clear :: "ldns_buffer \<Rightarrow> ldns_buffer" where
  "ldns_buffer_clear b = b\<lparr>b_position := 0, b_limit := length (b_data b)\<rparr>"

definition ldns_buffer_flip :: "ldns_buffer \<Rightarrow> ldns_buffer" where
  "ldns_buffer_flip b = b\<lparr>b_limit := b_position b, b_position := 0\<rparr>"

definition ldns_buffer_begin :: "ldns_buffer \<Rightarrow> nat" where
  "ldns_buffer_begin b = 0"

definition ldns_buffer_current :: "ldns_buffer \<Rightarrow> nat" where
  "ldns_buffer_current b = b_position b"

definition ldns_buffer_limit :: "ldns_buffer \<Rightarrow> nat" where
  "ldns_buffer_limit b = b_limit b"

definition ldns_buffer_write :: "ldns_buffer \<Rightarrow> byte list \<Rightarrow> nat \<Rightarrow> ldns_buffer option" where
  "ldns_buffer_write b src cnt =
     (if cnt \<le> length src \<and> b_limit b \<le> length (b_data b) \<and> b_position b + cnt \<le> b_limit b
      then Some (b\<lparr>b_data := take (b_position b) (b_data b) @ take cnt src
                          @ drop (b_position b + cnt) (b_data b),
                    b_position := b_position b + cnt\<rparr>)
      else None)"

text \<open>\<^verbatim>\<open>query_dname_tolower(p)\<close> for a pointer \<open>p\<close> at offset \<open>off\<close> of the buffer.\<close>

definition query_dname_tolower_at :: "externs \<Rightarrow> ldns_buffer \<Rightarrow> nat \<Rightarrow> ldns_buffer option" where
  "query_dname_tolower_at x b off = do {
     m \<leftarrow> mem_from (b_data b) off;
     m' \<leftarrow> query_dname_tolower x m;
     if length m' = length m then Some (b\<lparr>b_data := take off (b_data b) @ m'\<rparr>) else None
   }"

definition dname_valid_at :: "externs \<Rightarrow> ldns_buffer \<Rightarrow> nat \<Rightarrow> nat \<Rightarrow> nat option" where
  "dname_valid_at x b off maxlen = do {
     m \<leftarrow> mem_from (b_data b) off;
     dname_valid x m maxlen
   }"

text \<open>\<^verbatim>\<open>memcmp(a, b, n) == 0\<close>.\<close>

definition memcmp_eq :: "byte list \<Rightarrow> byte list \<Rightarrow> nat \<Rightarrow> bool option" where
  "memcmp_eq a b n =
     (if n \<le> length a \<and> n \<le> length b then Some (take n a = take n b) else None)"

subsection \<open>DS digest\<close>

text \<open>\<^verbatim>\<open>ds_create_dnskey_digest\<close> gives the digest it wrote, or \<open>None\<close> in the place of
  the digest when it returns false.\<close>

definition ds_create_dnskey_digest ::
  "externs \<Rightarrow> state \<Rightarrow> nat \<Rightarrow> nat \<Rightarrow> nat \<Rightarrow> nat \<Rightarrow> (byte list option \<times> state) option" where
  "ds_create_dnskey_digest x s dnskey_rrset dnskey_idx ds_rrset ds_idx = do {
     dnskey_rdata \<leftarrow> rrset_get_rdata x s dnskey_rrset dnskey_idx;
     key \<leftarrow> heap s dnskey_rrset;
     b1 \<leftarrow> ldns_buffer_write (ldns_buffer_clear (scratch_buffer s))
             (dname (rk key)) (dname_len (rk key));
     b2 \<leftarrow> query_dname_tolower_at x b1 (ldns_buffer_begin b1);
     src \<leftarrow> mem_from dnskey_rdata 2;
     b3 \<leftarrow> ldns_buffer_write b2 src (size_sub (size_t_bits x) (length dnskey_rdata) 2);
     let b4 = ldns_buffer_flip b3;
     let s' = s\<lparr>scratch_buffer := b4\<rparr>;
     a \<leftarrow> ds_get_digest_algo x s' ds_rrset ds_idx;
     if a = LDNS_SHA1
       then Some (Some (SHA1 x (take (ldns_buffer_limit b4) (b_data b4))), s')
     else if a = LDNS_SHA256
       then Some (Some (SHA256 x (take (ldns_buffer_limit b4) (b_data b4))), s')
     else Some (None, s')
   }"

definition ds_digest_match_dnskey ::
  "externs \<Rightarrow> state \<Rightarrow> nat \<Rightarrow> nat \<Rightarrow> nat \<Rightarrow> nat \<Rightarrow> (bool \<times> state) option" where
  "ds_digest_match_dnskey x s dnskey_rrset dnskey_idx ds_rrset ds_idx = do {
     digestlen \<leftarrow> ds_digest_size_algo x s ds_rrset ds_idx;
     if digestlen = 0 then Some (False, s)
     else do {
       (ds, dslen) \<leftarrow> ds_get_sigdata x s ds_rrset ds_idx;
       (case ds of
          None \<Rightarrow> Some (False, s)
        | Some dsm \<Rightarrow>
            if dslen \<noteq> digestlen then Some (False, s)
            else if \<not> region_alloc x digestlen then Some (False, s)
            else do {
              (r, s') \<leftarrow> ds_create_dnskey_digest x s dnskey_rrset dnskey_idx ds_rrset ds_idx;
              (case r of
                 None \<Rightarrow> Some (False, s')
               | Some digest \<Rightarrow> do {
                   eq \<leftarrow> memcmp_eq digest dsm dslen;
                   if \<not> eq then Some (False, s') else Some (True, s')
                 })
            })
     }
   }"

definition ds_digest_algo_is_supported :: "externs \<Rightarrow> state \<Rightarrow> nat \<Rightarrow> nat \<Rightarrow> bool option" where
  "ds_digest_algo_is_supported x s ds_rrset ds_idx = do {
     n \<leftarrow> ds_digest_size_algo x s ds_rrset ds_idx;
     Some (n \<noteq> 0)
   }"

definition dnskey_algo_id_is_supported :: "int \<Rightarrow> bool" where
  "dnskey_algo_id_is_supported id' =
     (if id' = LDNS_DSA \<or> id' = LDNS_DSA_NSEC3 \<or> id' = LDNS_RSASHA1
         \<or> id' = LDNS_RSASHA1_NSEC3 \<or> id' = LDNS_RSAMD5
      then True else False)"

definition ds_key_algo_is_supported :: "externs \<Rightarrow> state \<Rightarrow> nat \<Rightarrow> nat \<Rightarrow> bool option" where
  "ds_key_algo_is_supported x s ds_rrset ds_idx = do {
     a \<leftarrow> ds_get_key_algo x s ds_rrset ds_idx;
     Some (dnskey_algo_id_is_supported a)
   }"

definition dnskey_algo_is_supported :: "externs \<Rightarrow> state \<Rightarrow> nat \<Rightarrow> nat \<Rightarrow> bool option" where
  "dnskey_algo_is_supported x s dnskey_rrset dnskey_idx = do {
     a \<leftarrow> dnskey_get_algo x s dnskey_rrset dnskey_idx;
     Some (dnskey_algo_id_is_supported a)
   }"

subsection \<open>Keytag\<close>

definition dnskey_calc_keytag :: "externs \<Rightarrow> state \<Rightarrow> nat \<Rightarrow> nat \<Rightarrow> 16 word option" where
  "dnskey_calc_keytag x s dnskey_rrset dnskey_idx = do {
     data \<leftarrow> rrset_get_rdata x s dnskey_rrset dnskey_idx;
     m \<leftarrow> mem_from data 2;
     let n = size_sub (size_t_bits x) (length data) 2;
     if n \<le> length m then Some (ldns_calc_keytag_raw x (take n m)) else None
   }"

subsection \<open>Date check\<close>

text \<open>The three dates are \<^verbatim>\<open>int32_t\<close> values, held as 32-bit words and read as
  signed numbers. \<^verbatim>\<open>a - b\<close> on two of them is a subtraction of \<^verbatim>\<open>int\<close>, of 32 bits,
  and has no defined result when the difference does not fit. \<^verbatim>\<open>(int32_t)time(0)\<close>
  keeps the low 32 bits of the clock.\<close>

definition int32_sub :: "32 word \<Rightarrow> 32 word \<Rightarrow> int option" where
  "int32_sub a b =
     (if - (2 ^ 31) \<le> sint a - sint b \<and> sint a - sint b < 2 ^ 31
      then Some (sint a - sint b) else None)"

definition check_dates :: "externs \<Rightarrow> val_env \<Rightarrow> byte list \<Rightarrow> byte list \<Rightarrow> bool option" where
  "check_dates x ve expi_p incep_p = do {
     expi0 \<leftarrow> load32 (little_endian x) expi_p;
     incep0 \<leftarrow> load32 (little_endian x) incep_p;
     let expi = ntohl (little_endian x) expi0;
     let incep = ntohl (little_endian x) incep0;
     let now = (if date_override ve \<noteq> 0 then date_override ve
                else word_of_int (time_now x));
     d1 \<leftarrow> int32_sub incep expi;
     if 0 < d1 then Some False
     else do {
       d2 \<leftarrow> int32_sub incep now;
       if 0 < d2 then Some False
       else do {
         d3 \<leftarrow> int32_sub now expi;
         if 0 < d3 then Some False
         else Some True
       }
     }
   }"

subsection \<open>Canonical form of an rrset\<close>

text \<open>Modelled from the spec: the RR types that the canonicalization treats, which
  the spec lists by name; their codes are constants of the ldns header \<^verbatim>\<open>ldns/rr.h\<close>,
  which is not part of the source, and have the IANA values.\<close>

definition LDNS_RR_TYPE_NS :: "16 word" where "LDNS_RR_TYPE_NS = 2"
definition LDNS_RR_TYPE_MD :: "16 word" where "LDNS_RR_TYPE_MD = 3"
definition LDNS_RR_TYPE_MF :: "16 word" where "LDNS_RR_TYPE_MF = 4"
definition LDNS_RR_TYPE_CNAME :: "16 word" where "LDNS_RR_TYPE_CNAME = 5"
definition LDNS_RR_TYPE_SOA :: "16 word" where "LDNS_RR_TYPE_SOA = 6"
definition LDNS_RR_TYPE_MB :: "16 word" where "LDNS_RR_TYPE_MB = 7"
definition LDNS_RR_TYPE_MG :: "16 word" where "LDNS_RR_TYPE_MG = 8"
definition LDNS_RR_TYPE_MR :: "16 word" where "LDNS_RR_TYPE_MR = 9"
definition LDNS_RR_TYPE_PTR :: "16 word" where "LDNS_RR_TYPE_PTR = 12"
definition LDNS_RR_TYPE_HINFO :: "16 word" where "LDNS_RR_TYPE_HINFO = 13"
definition LDNS_RR_TYPE_MINFO :: "16 word" where "LDNS_RR_TYPE_MINFO = 14"
definition LDNS_RR_TYPE_MX :: "16 word" where "LDNS_RR_TYPE_MX = 15"
definition LDNS_RR_TYPE_RP :: "16 word" where "LDNS_RR_TYPE_RP = 17"
definition LDNS_RR_TYPE_AFSDB :: "16 word" where "LDNS_RR_TYPE_AFSDB = 18"
definition LDNS_RR_TYPE_RT :: "16 word" where "LDNS_RR_TYPE_RT = 21"
definition LDNS_RR_TYPE_SIG :: "16 word" where "LDNS_RR_TYPE_SIG = 24"
definition LDNS_RR_TYPE_PX :: "16 word" where "LDNS_RR_TYPE_PX = 26"
definition LDNS_RR_TYPE_NXT :: "16 word" where "LDNS_RR_TYPE_NXT = 30"
definition LDNS_RR_TYPE_SRV :: "16 word" where "LDNS_RR_TYPE_SRV = 33"
definition LDNS_RR_TYPE_NAPTR :: "16 word" where "LDNS_RR_TYPE_NAPTR = 35"
definition LDNS_RR_TYPE_KX :: "16 word" where "LDNS_RR_TYPE_KX = 36"
definition LDNS_RR_TYPE_DNAME :: "16 word" where "LDNS_RR_TYPE_DNAME = 39"
definition LDNS_RR_TYPE_RRSIG :: "16 word" where "LDNS_RR_TYPE_RRSIG = 46"
definition LDNS_RR_TYPE_NSEC :: "16 word" where "LDNS_RR_TYPE_NSEC = 47"

text \<open>A pointer into an entry of \<^verbatim>\<open>rr_data\<close>: the address of the rrset, the index of the
  entry and the offset in it.\<close>

type_synonym rr_ptr = "nat \<times> nat \<times> nat"

definition ptr_add :: "rr_ptr \<Rightarrow> nat \<Rightarrow> rr_ptr" where
  "ptr_add p n = (case p of (k, i, off) \<Rightarrow> (k, i, off + n))"

definition rr_mem :: "state \<Rightarrow> rr_ptr \<Rightarrow> byte list option" where
  "rr_mem s p = (case p of (k, i, off) \<Rightarrow> do {
     d \<leftarrow> get_data s k;
     rr \<leftarrow> nth_opt (rr_data d) i;
     mem_from rr off
   })"

text \<open>The memory from a pointer onwards after a callee has written it in place.\<close>

definition rr_mem_update :: "state \<Rightarrow> rr_ptr \<Rightarrow> byte list \<Rightarrow> state option" where
  "rr_mem_update s p m = (case p of (k, i, off) \<Rightarrow> do {
     key \<leftarrow> heap s k;
     d \<leftarrow> entry_data key;
     rr \<leftarrow> nth_opt (rr_data d) i;
     if off \<le> length rr \<and> length m = length rr - off
     then Some (s\<lparr>heap := (heap s)(k \<mapsto>
             key\<lparr>entry_data := Some (d\<lparr>rr_data := (rr_data d)[i := take off rr @ m]\<rparr>)\<rparr>)\<rparr>)
     else None
   })"

text \<open>\<^verbatim>\<open>canonical_sort\<close> has an empty body.\<close>

definition canonical_sort :: "state \<Rightarrow> nat \<Rightarrow> state" where
  "canonical_sort s rrset = s"

text \<open>The loop of \<^verbatim>\<open>insert_can_owner\<close> that removes \<open>n\<close> labels.\<close>

fun remove_labels :: "externs \<Rightarrow> nat \<Rightarrow> byte list \<Rightarrow> nat \<Rightarrow> (byte list \<times> nat) option" where
  "remove_labels x 0 nm len = Some (nm, len)"
| "remove_labels x (Suc n) nm len =
     (case dname_remove_label x nm len of
        None \<Rightarrow> None
      | Some (nm', len') \<Rightarrow> remove_labels x n nm' len')"

text \<open>\<^verbatim>\<open>insert_can_owner\<close> gives the buffer, \<^verbatim>\<open>*can_owner\<close> as an offset of the buffer
  and \<^verbatim>\<open>*can_owner_len\<close>; \<open>can_owner_len0\<close> is the value \<^verbatim>\<open>*can_owner_len\<close> has on
  entry. \<open>sig\<close> is the memory from the pointer \<^verbatim>\<open>sig\<close> onwards.\<close>

definition insert_can_owner ::
  "externs \<Rightarrow> ldns_buffer \<Rightarrow> ub_packed_rrset_key \<Rightarrow> byte list \<Rightarrow> nat
     \<Rightarrow> (ldns_buffer \<times> nat \<times> nat) option" where
  "insert_can_owner x buf k sig can_owner_len0 = do {
     l \<leftarrow> nth_opt sig 3;
     let rrsig_labels = uint l;
     fqdn_labels \<leftarrow> dname_signame_label_count x (dname (rk k));
     let can_owner = ldns_buffer_current buf;
     if rrsig_labels = fqdn_labels then do {
       b1 \<leftarrow> ldns_buffer_write buf (dname (rk k)) (dname_len (rk k));
       b2 \<leftarrow> query_dname_tolower_at x b1 can_owner;
       Some (b2, can_owner, dname_len (rk k))
     } else do {
       _ \<leftarrow> log_assert x (rrsig_labels < fqdn_labels);
       if rrsig_labels < fqdn_labels then do {
         (nm, len) \<leftarrow> remove_labels x (nat (fqdn_labels - rrsig_labels))
                        (dname (rk k)) (dname_len (rk k));
         b1 \<leftarrow> ldns_buffer_write buf [0x01, 0x2A] 2;
         b2 \<leftarrow> ldns_buffer_write b1 nm len;
         b3 \<leftarrow> query_dname_tolower_at x b2 can_owner;
         Some (b3, can_owner, len + 2)
       } else Some (buf, can_owner, can_owner_len0)
     }
   }"

text \<open>The loop of \<^verbatim>\<open>lowercase_text_field\<close>: \<open>n\<close> bytes from offset \<open>p\<close> of the buffer
  memory.\<close>

fun lowercase_loop :: "nat \<Rightarrow> byte list \<Rightarrow> nat \<Rightarrow> byte list option" where
  "lowercase_loop 0 m p = Some m"
| "lowercase_loop (Suc n) m p =
     (if p < length m then lowercase_loop n (m[p := tolower (m ! p)]) (p + 1) else None)"

definition lowercase_text_field :: "ldns_buffer \<Rightarrow> nat \<Rightarrow> ldns_buffer option" where
  "lowercase_text_field b p = do {
     l \<leftarrow> nth_opt (b_data b) p;
     m \<leftarrow> lowercase_loop (unat l) (b_data b) (p + 1);
     Some (b\<lparr>b_data := m\<rparr>)
   }"

text \<open>\<^verbatim>\<open>(size_t)datstart[0]+1\<close> for \<open>datstart\<close> at offset \<open>p\<close> of the buffer.\<close>

definition text_len_at :: "ldns_buffer \<Rightarrow> nat \<Rightarrow> nat option" where
  "text_len_at b p = do { l \<leftarrow> nth_opt (b_data b) p; Some (unat l + 1) }"

definition canonicalize_rdata ::
  "externs \<Rightarrow> ldns_buffer \<Rightarrow> ub_packed_rrset_key \<Rightarrow> nat \<Rightarrow> ldns_buffer option" where
  "canonicalize_rdata x buf rrset len =
    (if ldns_buffer_current buf < len then None
     else
      let datstart = ldns_buffer_current buf - len + 2;
          t = ntohs (little_endian x) (type (rk rrset))
      in
      if t = LDNS_RR_TYPE_NXT \<or> t = LDNS_RR_TYPE_NSEC \<or> t = LDNS_RR_TYPE_NS
         \<or> t = LDNS_RR_TYPE_MD \<or> t = LDNS_RR_TYPE_MF \<or> t = LDNS_RR_TYPE_CNAME
         \<or> t = LDNS_RR_TYPE_MB \<or> t = LDNS_RR_TYPE_MG \<or> t = LDNS_RR_TYPE_MR
         \<or> t = LDNS_RR_TYPE_PTR \<or> t = LDNS_RR_TYPE_DNAME
      then query_dname_tolower_at x buf datstart
      else if t = LDNS_RR_TYPE_MINFO \<or> t = LDNS_RR_TYPE_RP \<or> t = LDNS_RR_TYPE_SOA
      then do {
        b1 \<leftarrow> query_dname_tolower_at x buf datstart;
        n \<leftarrow> dname_valid_at x b1 datstart (size_sub (size_t_bits x) len 2);
        query_dname_tolower_at x b1 (datstart + n)
      }
      else if t = LDNS_RR_TYPE_HINFO
      then do {
        let len1 = size_sub (size_t_bits x) len 2;
        n0 \<leftarrow> text_len_at buf datstart;
        if len1 < n0 then Some buf
        else do {
          b1 \<leftarrow> lowercase_text_field buf datstart;
          n1 \<leftarrow> text_len_at b1 datstart;
          let len2 = len1 - n1;
          let datstart2 = datstart + n1;
          n2 \<leftarrow> text_len_at b1 datstart2;
          if len2 < n2 then Some b1
          else lowercase_text_field b1 datstart2
        }
      }
      else if t = LDNS_RR_TYPE_RT \<or> t = LDNS_RR_TYPE_AFSDB \<or> t = LDNS_RR_TYPE_KX
         \<or> t = LDNS_RR_TYPE_MX
      then (if len < 2 + 2 + 1 then Some buf
            else query_dname_tolower_at x buf (datstart + 2))
      else if t = LDNS_RR_TYPE_SIG \<or> t = LDNS_RR_TYPE_RRSIG
      then (if len < 2 + 18 + 1 then Some buf
            else query_dname_tolower_at x buf (datstart + 18))
      else if t = LDNS_RR_TYPE_PX
      then (if len < 2 + 2 + 1 then Some buf
            else do {
              b1 \<leftarrow> query_dname_tolower_at x buf (datstart + 2);
              n \<leftarrow> dname_valid_at x b1 (datstart + 2) (len - 2 - 2);
              query_dname_tolower_at x b1 (datstart + 2 + n)
            })
      else if t = LDNS_RR_TYPE_NAPTR
      then (if len < 2 + 4 then Some buf
            else do {
              let len1 = len - (2 + 4);
              let d1 = datstart + 4;
              n1 \<leftarrow> text_len_at buf d1;
              if len1 < n1 then Some buf
              else do {
                let len2 = len1 - n1;
                let d2 = d1 + n1;
                n2 \<leftarrow> text_len_at buf d2;
                if len2 < n2 then Some buf
                else do {
                  let len3 = len2 - n2;
                  let d3 = d2 + n2;
                  n3 \<leftarrow> text_len_at buf d3;
                  if len3 < n3 then Some buf
                  else do {
                    let len4 = len3 - n3;
                    let d4 = d3 + n3;
                    if len4 < 1 then Some buf
                    else query_dname_tolower_at x buf d4
                  }
                }
              }
            })
      else if t = LDNS_RR_TYPE_SRV
      then (if len < 2 + 6 + 1 then Some buf
            else query_dname_tolower_at x buf (datstart + 6))
      else Some buf)"

text \<open>The body of the loop of \<^verbatim>\<open>rrset_canonical\<close> for the data RR \<open>i\<close>, then the
  \<open>n\<close> RRs after it. The loop state is the buffer, \<^verbatim>\<open>can_owner\<close> (\<open>None\<close> for
  \<^verbatim>\<open>NULL\<close>, else an offset of the buffer) and \<^verbatim>\<open>can_owner_len\<close>.\<close>

fun rrset_canonical_loop ::
  "externs \<Rightarrow> state \<Rightarrow> nat \<Rightarrow> rr_ptr \<Rightarrow> nat \<Rightarrow> nat \<Rightarrow> ldns_buffer \<times> nat option \<times> nat
     \<Rightarrow> (ldns_buffer \<times> nat option \<times> nat) option" where
  "rrset_canonical_loop x s k sig i 0 acc = Some acc"
| "rrset_canonical_loop x s k sig i (Suc n) (buf, can_owner, can_owner_len) = do {
     key \<leftarrow> heap s k;
     d \<leftarrow> entry_data key;
     (b1, co, col) \<leftarrow>
       (case can_owner of
          Some p \<Rightarrow> do {
            src \<leftarrow> mem_from (b_data buf) p;
            b \<leftarrow> ldns_buffer_write buf src can_owner_len;
            Some (b, p, can_owner_len)
          }
        | None \<Rightarrow> do {
            sigm \<leftarrow> rr_mem s sig;
            insert_can_owner x buf key sigm can_owner_len
          });
     b2 \<leftarrow> ldns_buffer_write b1 (mem16 (little_endian x) (type (rk key))) 2;
     b3 \<leftarrow> ldns_buffer_write b2 (mem16 (little_endian x) (rrset_class (rk key))) 2;
     sig4 \<leftarrow> rr_mem s (ptr_add sig 4);
     b4 \<leftarrow> ldns_buffer_write b3 sig4 4;
     rr \<leftarrow> nth_opt (rr_data d) i;
     b5 \<leftarrow> ldns_buffer_write b4 rr (length rr);
     b6 \<leftarrow> canonicalize_rdata x b5 key (length rr);
     rrset_canonical_loop x s k sig (i + 1) n (b6, Some co, col)
   }"

text \<open>\<^verbatim>\<open>rrset_canonical\<close> works on the scratch buffer of the state. The signer name is
  lower-cased through the pointer \<^verbatim>\<open>sig+18\<close>, which points into the rrset.\<close>

definition rrset_canonical ::
  "externs \<Rightarrow> state \<Rightarrow> nat \<Rightarrow> rr_ptr \<Rightarrow> nat \<Rightarrow> (bool \<times> state) option" where
  "rrset_canonical x s k sig siglen = do {
     let s0 = canonical_sort s k;
     let b0 = ldns_buffer_clear (scratch_buffer s0);
     sigm \<leftarrow> rr_mem s0 sig;
     b1 \<leftarrow> ldns_buffer_write b0 sigm siglen;
     m \<leftarrow> rr_mem s0 (ptr_add sig 18);
     m' \<leftarrow> query_dname_tolower x m;
     s1 \<leftarrow> rr_mem_update s0 (ptr_add sig 18) m';
     d \<leftarrow> get_data s1 k;
     (b2, co, col) \<leftarrow> rrset_canonical_loop x s1 k sig 0 (count d) (b1, None, 0);
     Some (True, s1\<lparr>scratch_buffer := ldns_buffer_flip b2\<rparr>)
   }"

subsection \<open>Verification of one signature with one key\<close>

definition dnskey_verify_rrset_sig ::
  "externs \<Rightarrow> state \<Rightarrow> val_env \<Rightarrow> nat \<Rightarrow> nat \<Rightarrow> nat \<Rightarrow> nat \<Rightarrow> (sec_status \<times> state) option" where
  "dnskey_verify_rrset_sig x s ve rrset dnskey dnskey_idx sig_idx = do {
     rrnum \<leftarrow> rrset_get_count s rrset;
     sig \<leftarrow> rrset_get_rdata x s rrset (rrnum + sig_idx);
     let siglen = length sig;
     if siglen < 2 + 20 then Some (sec_status_bogus, s)
     else do {
       flags \<leftarrow> dnskey_get_flags x s dnskey dnskey_idx;
       if flags AND DNSKEY_BIT_ZSK = 0 then Some (sec_status_bogus, s)
       else do {
         signer \<leftarrow> mem_from sig (2 + 18);
         signer_len \<leftarrow> dname_valid x signer (siglen - 2 - 18);
         if signer_len = 0 then Some (sec_status_bogus, s)
         else if siglen < 2 + 18 + signer_len + 1 then Some (sec_status_bogus, s)
         else do {
           dkey \<leftarrow> heap s dnskey;
           c \<leftarrow> query_dname_compare x signer (dname (rk dkey));
           if c \<noteq> 0 then Some (sec_status_bogus, s)
           else do {
             rkey \<leftarrow> heap s rrset;
             if take 2 (drop 2 sig) \<noteq> mem16 (little_endian x) (type (rk rkey))
             then Some (sec_status_bogus, s)
             else do {
               algo \<leftarrow> dnskey_get_algo x s dnskey dnskey_idx;
               if uint (sig ! 2) \<noteq> algo then Some (sec_status_bogus, s)
               else do {
                 ktag \<leftarrow> dnskey_calc_keytag x s dnskey dnskey_idx;
                 if take 2 (drop 16 sig) \<noteq> mem16 (little_endian x) ktag
                 then Some (sec_status_bogus, s)
                 else do {
                   labs \<leftarrow> dname_signame_label_count x (dname (rk rkey));
                   if uint (sig ! 3) > labs then Some (sec_status_bogus, s)
                   else do {
                     dates_ok \<leftarrow> check_dates x ve (drop 8 sig) (drop 12 sig);
                     if \<not> dates_ok then Some (sec_status_bogus, s)
                     else do {
                       (r, s') \<leftarrow> rrset_canonical x s rrset (rrset, rrnum + sig_idx, 2)
                                   (18 + signer_len);
                       if \<not> r then Some (sec_status_unchecked, s')
                       else Some (sec_status_unchecked, s')
                     }
                   }
                 }
               }
             }
           }
         }
       }
     }
   }"

subsection \<open>Drivers\<close>

text \<open>The loop of \<^verbatim>\<open>dnskeyset_verify_rrset_sig\<close> from key \<open>i\<close>, for \<open>n\<close> more keys.\<close>

fun dnskeyset_verify_rrset_sig_loop ::
  "externs \<Rightarrow> val_env \<Rightarrow> nat \<Rightarrow> nat \<Rightarrow> nat \<Rightarrow> 16 word \<Rightarrow> int \<Rightarrow> nat \<Rightarrow> nat \<Rightarrow> nat \<Rightarrow> state
     \<Rightarrow> (sec_status \<times> state) option" where
  "dnskeyset_verify_rrset_sig_loop x ve rrset dnskey sig_idx tag algo i 0 numchecked s =
     (if numchecked = 0 then Some (sec_status_bogus, s) else Some (sec_status_bogus, s))"
| "dnskeyset_verify_rrset_sig_loop x ve rrset dnskey sig_idx tag algo i (Suc n) numchecked s = do {
     a \<leftarrow> dnskey_get_algo x s dnskey i;
     if algo \<noteq> a
     then dnskeyset_verify_rrset_sig_loop x ve rrset dnskey sig_idx tag algo (i + 1) n numchecked s
     else do {
       t \<leftarrow> dnskey_calc_keytag x s dnskey i;
       if tag \<noteq> t
       then dnskeyset_verify_rrset_sig_loop x ve rrset dnskey sig_idx tag algo (i + 1) n numchecked s
       else do {
         (sec, s') \<leftarrow> dnskey_verify_rrset_sig x s ve rrset dnskey i sig_idx;
         if sec = sec_status_secure then Some (sec, s')
         else dnskeyset_verify_rrset_sig_loop x ve rrset dnskey sig_idx tag algo (i + 1) n
                (numchecked + 1) s'
       }
     }
   }"

definition dnskeyset_verify_rrset_sig ::
  "externs \<Rightarrow> state \<Rightarrow> val_env \<Rightarrow> nat \<Rightarrow> nat \<Rightarrow> nat \<Rightarrow> (sec_status \<times> state) option" where
  "dnskeyset_verify_rrset_sig x s ve rrset dnskey sig_idx = do {
     tag \<leftarrow> rrset_get_sig_keytag x s rrset sig_idx;
     algo \<leftarrow> rrset_get_sig_algo x s rrset sig_idx;
     num \<leftarrow> rrset_get_count s dnskey;
     dnskeyset_verify_rrset_sig_loop x ve rrset dnskey sig_idx tag algo 0 num 0 s
   }"

text \<open>The loop over the signatures that both \<^verbatim>\<open>dnskeyset_verify_rrset\<close> and
  \<^verbatim>\<open>dnskey_verify_rrset\<close> have, from signature \<open>i\<close>, for \<open>n\<close> more signatures; \<open>vf\<close>
  is the call in its body.\<close>

fun verify_rrset_loop ::
  "(state \<Rightarrow> nat \<Rightarrow> (sec_status \<times> state) option) \<Rightarrow> nat \<Rightarrow> nat \<Rightarrow> state
     \<Rightarrow> (sec_status \<times> state) option" where
  "verify_rrset_loop vf i 0 s = Some (sec_status_bogus, s)"
| "verify_rrset_loop vf i (Suc n) s =
     (case vf s i of
        None \<Rightarrow> None
      | Some (sec, s') \<Rightarrow>
          if sec = sec_status_secure then Some (sec, s')
          else verify_rrset_loop vf (i + 1) n s')"

definition dnskeyset_verify_rrset ::
  "externs \<Rightarrow> state \<Rightarrow> val_env \<Rightarrow> nat \<Rightarrow> nat \<Rightarrow> (sec_status \<times> state) option" where
  "dnskeyset_verify_rrset x s ve rrset dnskey = do {
     num \<leftarrow> rrset_get_sigcount s rrset;
     if num = 0 then Some (sec_status_bogus, s)
     else verify_rrset_loop
            (\<lambda>s' i. dnskeyset_verify_rrset_sig x s' ve rrset dnskey i) 0 num s
   }"

definition dnskey_verify_rrset ::
  "externs \<Rightarrow> state \<Rightarrow> val_env \<Rightarrow> nat \<Rightarrow> nat \<Rightarrow> nat \<Rightarrow> (sec_status \<times> state) option" where
  "dnskey_verify_rrset x s ve rrset dnskey dnskey_idx = do {
     num \<leftarrow> rrset_get_sigcount s rrset;
     if num = 0 then Some (sec_status_bogus, s)
     else verify_rrset_loop
            (\<lambda>s' i. dnskey_verify_rrset_sig x s' ve rrset dnskey dnskey_idx i) 0 num s
   }"

section \<open>The called functions on concrete inputs\<close>

text \<open>The theorems about the functions above hold for every \<open>externs\<close>. To run them on
  concrete inputs, the functions they call are given here.\<close>

text \<open>Modelled from the spec: \<^verbatim>\<open>dname_valid\<close> of \<^verbatim>\<open>util/data/dname.c\<close>, the "validity
  check returning length" of a wire-format name: the length of the uncompressed name
  at the pointer, 0 when a label is a compression pointer, the name reaches 255 bytes
  or it does not fit in \<open>maxlen\<close> bytes.\<close>

fun dname_valid_loop :: "byte list \<Rightarrow> nat \<Rightarrow> nat \<Rightarrow> nat option" where
  "dname_valid_loop [] len maxlen = None"
| "dname_valid_loop (l # rest) len maxlen =
     (if l = 0 then (if maxlen < len + 1 then Some 0 else Some (len + 1))
      else if l AND 0xC0 \<noteq> 0 then Some 0
      else if 255 \<le> len + unat l + 1 then Some 0
      else if maxlen < len + unat l + 1 then Some 0
      else dname_valid_loop (drop (unat l) rest) (len + unat l + 1) maxlen)"

definition dname_valid_impl :: "byte list \<Rightarrow> nat \<Rightarrow> nat option" where
  "dname_valid_impl m maxlen = dname_valid_loop m 0 maxlen"

text \<open>Modelled from the spec: \<^verbatim>\<open>query_dname_compare\<close> of \<^verbatim>\<open>util/data/dname.c\<close>, the
  "equality compare (case-insensitive)" of two wire-format names: 0 for equal names,
  else -1 or 1.\<close>

fun label_compare :: "nat \<Rightarrow> byte list \<Rightarrow> byte list \<Rightarrow> int option" where
  "label_compare 0 d1 d2 = Some 0"
| "label_compare (Suc n) (a # d1) (b # d2) =
     (if a = b then label_compare n d1 d2
      else if tolower a = tolower b then label_compare n d1 d2
      else if tolower a < tolower b then Some (- 1) else Some 1)"
| "label_compare (Suc n) d1 d2 = None"

fun query_dname_compare_impl :: "byte list \<Rightarrow> byte list \<Rightarrow> int option" where
  "query_dname_compare_impl (lab1 # d1) (lab2 # d2) =
     (if lab1 = 0 \<and> lab2 = 0 then Some 0
      else if lab1 = lab2 then
        (case label_compare (unat lab1) d1 d2 of
           None \<Rightarrow> None
         | Some c \<Rightarrow>
             if c = 0 then query_dname_compare_impl (drop (unat lab1) d1) (drop (unat lab1) d2)
             else Some c)
      else if lab1 < lab2 then Some (- 1) else Some 1)"
| "query_dname_compare_impl d1 d2 = None"

text \<open>Modelled from the spec: \<^verbatim>\<open>dname_signame_label_count\<close> of \<^verbatim>\<open>util/data/dname.c\<close>,
  the label count in which the root and a leading wildcard label do not count.\<close>

fun label_count_loop :: "byte list \<Rightarrow> int \<Rightarrow> int option" where
  "label_count_loop [] c = None"
| "label_count_loop (l # rest) c =
     (if l = 0 then Some c else label_count_loop (drop (unat l) rest) (c + 1))"

definition dname_signame_label_count_impl :: "byte list \<Rightarrow> int option" where
  "dname_signame_label_count_impl m =
     (case m of
        [] \<Rightarrow> None
      | l # rest \<Rightarrow>
          if l = 0 then Some 0
          else if l = 1 then
            (case rest of
               [] \<Rightarrow> None
             | c # rest' \<Rightarrow> if c = 0x2A then label_count_loop rest' 0 else label_count_loop m 0)
          else label_count_loop m 0)"

text \<open>Modelled from the spec: \<^verbatim>\<open>dname_remove_label\<close> of \<^verbatim>\<open>util/data/dname.c\<close>, the
  "label removal": the pointer moves past the first label and the length shrinks by
  it; the root label stays.\<close>

definition dname_remove_label_impl :: "byte list \<Rightarrow> nat \<Rightarrow> (byte list \<times> nat) option" where
  "dname_remove_label_impl nm len =
     (case nm of
        [] \<Rightarrow> None
      | l # rest \<Rightarrow>
          if l = 0 then Some (nm, len)
          else if unat l < len \<and> unat l + 1 \<le> length nm
          then Some (drop (unat l + 1) nm, len - (unat l + 1))
          else None)"

text \<open>Modelled from the spec: \<^verbatim>\<open>query_dname_tolower\<close> of \<^verbatim>\<open>util/data/dname.c\<close>, the
  "lowercase-in-place" of a wire-format name: the bytes of every label up to the root
  label are lower-cased, the length bytes stay.\<close>

fun query_dname_tolower_impl :: "byte list \<Rightarrow> byte list option" where
  "query_dname_tolower_impl [] = None"
| "query_dname_tolower_impl (l # rest) =
     (if l = 0 then Some (l # rest)
      else if length rest < unat l then None
      else (case query_dname_tolower_impl (drop (unat l) rest) of
              None \<Rightarrow> None
            | Some r \<Rightarrow> Some (l # map tolower (take (unat l) rest) @ r)))"

text \<open>Modelled from the spec: the keytag "per RFC 4034 Appendix B" that the ldns
  library computes over the DNSKEY RDATA: the ones-complement-like sum of Appendix B,
  and for algorithm 1 (RSA/MD5) the 16 bits before the last 8 bits of the key
  (Appendix B.1).\<close>

fun keytag_sum :: "byte list \<Rightarrow> nat \<Rightarrow> 32 word \<Rightarrow> 32 word" where
  "keytag_sum [] i ac = ac"
| "keytag_sum (b # key) i ac =
     keytag_sum key (i + 1) (ac + (if odd i then ucast b else push_bit 8 (ucast b)))"

definition ldns_calc_keytag_raw_impl :: "byte list \<Rightarrow> 16 word" where
  "ldns_calc_keytag_raw_impl key =
     (if length key < 4 then 0
      else if key ! 3 = 1 then
        (if 4 < length key
         then (case load16 False (drop (length key - 3) key) of None \<Rightarrow> 0 | Some w \<Rightarrow> w)
         else 0)
      else (let ac = keytag_sum key 0 0
            in ucast ((ac + (drop_bit 16 ac AND 0xFFFF)) AND 0xFFFF)))"

text \<open>A stand-in for the hash functions of the crypto library, with a digest of \<open>n\<close>
  bytes: the sum of the message bytes, repeated.\<close>

definition sum_digest :: "nat \<Rightarrow> byte list \<Rightarrow> byte list" where
  "sum_digest n m = replicate n (fold (+) m 0)"

text \<open>The externs of a host of the given byte order, with assertions compiled in or
  not, a 64-bit \<^verbatim>\<open>size_t\<close>, a clock that reads \<open>t\<close> and an allocator that succeeds.\<close>

definition host :: "bool \<Rightarrow> bool \<Rightarrow> int \<Rightarrow> externs" where
  "host le dbg t = \<lparr>
     little_endian = le,
     UNBOUND_DEBUG = dbg,
     size_t_bits = 64,
     time_now = t,
     region_alloc = (\<lambda>n. True),
     SHA1 = sum_digest SHA_DIGEST_LENGTH,
     SHA256 = sum_digest SHA256_DIGEST_LENGTH,
     ldns_calc_keytag_raw = ldns_calc_keytag_raw_impl,
     dname_valid = dname_valid_impl,
     query_dname_compare = query_dname_compare_impl,
     dname_signame_label_count = dname_signame_label_count_impl,
     dname_remove_label = dname_remove_label_impl,
     query_dname_tolower = query_dname_tolower_impl
   \<rparr>"

section \<open>Readings of results and of the RRSIG RDATA\<close>

definition verdict :: "(sec_status \<times> state) option \<Rightarrow> sec_status option" where
  "verdict r = map_option fst r"

text \<open>The rrset at address \<open>k\<close> after a call.\<close>

definition rrset_after :: "(sec_status \<times> state) option \<Rightarrow> nat \<Rightarrow> ub_packed_rrset_key option" where
  "rrset_after r k = (case r of None \<Rightarrow> None | Some (v, s) \<Rightarrow> heap s k)"

text \<open>The fields of the RRSIG RDATA as the spec lays them out:
  \<^verbatim>\<open>type_covered(2) | algorithm(1) | labels(1) | original_ttl(4) | sig_expiration(4) |
  sig_inception(4) | key_tag(2) | signer_name | signature\<close>. \<open>rrsig_rdata\<close> builds an
  RDATA from its fields, the other functions read the fields of an RDATA.\<close>

definition rrsig_rdata ::
  "byte list \<Rightarrow> byte \<Rightarrow> byte \<Rightarrow> byte list \<Rightarrow> byte list \<Rightarrow> byte list \<Rightarrow> byte list
     \<Rightarrow> byte list \<Rightarrow> byte list \<Rightarrow> byte list" where
  "rrsig_rdata type_covered algorithm labels original_ttl sig_expiration sig_inception
     key_tag signer_name signature =
     type_covered @ [algorithm, labels] @ original_ttl @ sig_expiration @ sig_inception
       @ key_tag @ signer_name @ signature"

definition rrsig_algorithm :: "byte list \<Rightarrow> byte list" where
  "rrsig_algorithm rdata = take 1 (drop 2 rdata)"

definition rrsig_labels :: "byte list \<Rightarrow> byte list" where
  "rrsig_labels rdata = take 1 (drop 3 rdata)"

definition rrsig_sig_expiration :: "byte list \<Rightarrow> byte list" where
  "rrsig_sig_expiration rdata = take 4 (drop 8 rdata)"

definition rrsig_sig_inception :: "byte list \<Rightarrow> byte list" where
  "rrsig_sig_inception rdata = take 4 (drop 12 rdata)"

definition rrsig_key_tag :: "byte list \<Rightarrow> byte list" where
  "rrsig_key_tag rdata = take 2 (drop 16 rdata)"

text \<open>The number a big-endian field holds.\<close>

definition be_value :: "byte list \<Rightarrow> int" where
  "be_value bs = fold (\<lambda>b n. 256 * n + uint b) bs 0"

text \<open>The 32-bit number that four bytes of the wire hold, big-endian, and the date
  window: false when the inception is after the expiration, \<open>now\<close> is before the
  inception or \<open>now\<close> is after the expiration, as signed 32-bit dates, the tests made
  in this order; no result when the two dates of a test are so far apart that their
  signed difference does not fit 32 bits.\<close>

definition be32 :: "byte list \<Rightarrow> 32 word option" where
  "be32 m = load32 False m"

definition apart :: "32 word \<Rightarrow> 32 word \<Rightarrow> bool" where
  "apart a b = (2 ^ 31 \<le> sint a - sint b \<or> 2 ^ 31 < sint b - sint a)"

definition date_window :: "32 word \<Rightarrow> 32 word \<Rightarrow> 32 word \<Rightarrow> bool option" where
  "date_window inception expiration now =
     (if apart inception expiration then None
      else if sint expiration < sint inception then Some False
      else if apart inception now then None
      else if sint now < sint inception then Some False
      else if apart now expiration then None
      else if sint expiration < sint now then Some False
      else Some True)"

text \<open>The fields of the DS RDATA as the spec lays them out:
  \<^verbatim>\<open>key_tag(2) | algorithm(1) | digest_type(1) | digest(rest)\<close>; the digest size of a
  digest type, 0 for an unsupported one (SHA-1, type 1, has 20 bytes and SHA-256,
  type 2, has 32), and the hash of a digest type.\<close>

definition ds_digest_type :: "byte list \<Rightarrow> byte list" where
  "ds_digest_type rdata = take 1 (drop 3 rdata)"

definition ds_digest :: "byte list \<Rightarrow> byte list" where
  "ds_digest rdata = drop 4 rdata"

definition digest_size :: "int \<Rightarrow> nat" where
  "digest_size t = (if t = 1 then 20 else if t = 2 then 32 else 0)"

definition digest_hash :: "externs \<Rightarrow> int \<Rightarrow> byte list \<Rightarrow> byte list" where
  "digest_hash x t = (if t = 1 then SHA1 x else SHA256 x)"

text \<open>An entry of \<^verbatim>\<open>rr_data\<close>: the RDATA after its 2-byte length.\<close>

definition with_rdlen :: "byte list \<Rightarrow> byte list" where
  "with_rdlen rdata = mem16 False (of_nat (length rdata)) @ rdata"

section \<open>Example inputs\<close>

text \<open>The names \<^verbatim>\<open>example.com.\<close> and \<^verbatim>\<open>EXAMPLE.COM.\<close> in wire format.\<close>

definition example_com :: "byte list" where
  "example_com =
     [0x07, 0x65, 0x78, 0x61, 0x6D, 0x70, 0x6C, 0x65, 0x03, 0x63, 0x6F, 0x6D, 0x00]"

definition EXAMPLE_COM :: "byte list" where
  "EXAMPLE_COM =
     [0x07, 0x45, 0x58, 0x41, 0x4D, 0x50, 0x4C, 0x45, 0x03, 0x43, 0x4F, 0x4D, 0x00]"

text \<open>A DNSKEY RDATA: flags 0x0100 (the ZSK bit), protocol 3, algorithm 1 (RSA/MD5) and
  a short public key. Its keytag is 0x5A5A, the same two bytes in either byte order.\<close>

definition dnskey_rdata :: "byte list" where
  "dnskey_rdata = [0x01, 0x00, 0x03, 0x01, 0x01, 0x03, 0xC5, 0x5A, 0x5A, 0x11]"

definition key_set :: "bool \<Rightarrow> ub_packed_rrset_key" where
  "key_set le =
     \<lparr> rk = \<lparr> dname = example_com, type = htons le 48, rrset_class = htons le 1 \<rparr>,
       entry_data = Some \<lparr> count = 1, rrsig_count = 0,
                           rr_data = [with_rdlen dnskey_rdata] \<rparr> \<rparr>"

text \<open>An rrset of type CAA (257, in bytes 0x01 0x01) at \<^verbatim>\<open>example.com.\<close> with one RR and
  one RRSIG of the given RDATA.\<close>

definition caa_rdata :: "byte list" where
  "caa_rdata = [0x00, 0x05, 0x69, 0x73, 0x73, 0x75, 0x65, 0x3B]"

definition caa_set :: "bool \<Rightarrow> byte list \<Rightarrow> ub_packed_rrset_key" where
  "caa_set le sig =
     \<lparr> rk = \<lparr> dname = example_com, type = htons le 257, rrset_class = htons le 1 \<rparr>,
       entry_data = Some \<lparr> count = 1, rrsig_count = 1,
                           rr_data = [with_rdlen caa_rdata, with_rdlen sig] \<rparr> \<rparr>"

text \<open>The memory: the CAA rrset at address 1, the key set at address 2 and a scratch
  buffer of 64 bytes.\<close>

definition memory :: "bool \<Rightarrow> byte list \<Rightarrow> state" where
  "memory le sig =
     \<lparr> heap = [1 \<mapsto> caa_set le sig, 2 \<mapsto> key_set le],
       scratch_buffer = \<lparr> b_data = replicate 64 0, b_position = 0, b_limit = 64 \<rparr> \<rparr>"

text \<open>The validator environment with the date pinned to 0x45000000.\<close>

definition pinned :: val_env where
  "pinned = \<lparr> date_override = 0x45000000 \<rparr>"

text \<open>The call \<^verbatim>\<open>dnskey_verify_rrset_sig(env, ve, rrset, dnskey, 0, 0)\<close> on that memory.\<close>

definition verify_example :: "bool \<Rightarrow> bool \<Rightarrow> byte list \<Rightarrow> (sec_status \<times> state) option" where
  "verify_example le dbg sig =
     dnskey_verify_rrset_sig (host le dbg 0) (memory le sig) pinned 1 2 0 0"

text \<open>An RRSIG whose fields, read as the spec lays them out, pass each of the nine
  checks that come before the signature is verified: it covers CAA with algorithm 1,
  has 2 labels, is valid from 0x40005A5A to 0x50000000, and has the keytag 0x5A5A and
  the signer \<^verbatim>\<open>example.com.\<close> The bytes that the code reads in their place pass its
  checks as well.\<close>

definition good_sig :: "byte list" where
  "good_sig = rrsig_rdata [0x01, 0x01] 1 2 [0x00, 0x00, 0x70, 0x00]
     [0x50, 0x00, 0x00, 0x00] [0x40, 0x00, 0x5A, 0x5A] [0x5A, 0x5A] example_com
     [0xDE, 0xAD, 0xBE, 0xEF]"

text \<open>The same RRSIG with an inception of 0x48005A5A, after the pinned date.\<close>

definition early_sig :: "byte list" where
  "early_sig = rrsig_rdata [0x01, 0x01] 1 2 [0x00, 0x00, 0x70, 0x00]
     [0x50, 0x00, 0x00, 0x00] [0x48, 0x00, 0x5A, 0x5A] [0x5A, 0x5A] example_com
     [0xDE, 0xAD, 0xBE, 0xEF]"

text \<open>The same RRSIG with the keytag 0x1234.\<close>

definition other_tag_sig :: "byte list" where
  "other_tag_sig = rrsig_rdata [0x01, 0x01] 1 2 [0x00, 0x00, 0x70, 0x00]
     [0x50, 0x00, 0x00, 0x00] [0x40, 0x00, 0x5A, 0x5A] [0x12, 0x34] example_com
     [0xDE, 0xAD, 0xBE, 0xEF]"

text \<open>The same RRSIG with algorithm 5 (RSA/SHA-1).\<close>

definition other_algo_sig :: "byte list" where
  "other_algo_sig = rrsig_rdata [0x01, 0x01] 5 2 [0x00, 0x00, 0x70, 0x00]
     [0x50, 0x00, 0x00, 0x00] [0x40, 0x00, 0x5A, 0x5A] [0x5A, 0x5A] example_com
     [0xDE, 0xAD, 0xBE, 0xEF]"

text \<open>The same RRSIG with 9 labels.\<close>

definition many_labels_sig :: "byte list" where
  "many_labels_sig = rrsig_rdata [0x01, 0x01] 1 9 [0x00, 0x00, 0x70, 0x00]
     [0x50, 0x00, 0x00, 0x00] [0x40, 0x00, 0x5A, 0x5A] [0x5A, 0x5A] example_com
     [0xDE, 0xAD, 0xBE, 0xEF]"

text \<open>The same RRSIG with the signer name in upper case.\<close>

definition upper_sig :: "byte list" where
  "upper_sig = rrsig_rdata [0x01, 0x01] 1 2 [0x00, 0x00, 0x70, 0x00]
     [0x50, 0x00, 0x00, 0x00] [0x40, 0x00, 0x5A, 0x5A] [0x5A, 0x5A] EXAMPLE_COM
     [0xDE, 0xAD, 0xBE, 0xEF]"

text \<open>The CAA rrset with two RRSIGs, and the memory with it at address 1.\<close>

definition caa_set2 :: "bool \<Rightarrow> byte list \<Rightarrow> byte list \<Rightarrow> ub_packed_rrset_key" where
  "caa_set2 le sig0 sig1 =
     \<lparr> rk = \<lparr> dname = example_com, type = htons le 257, rrset_class = htons le 1 \<rparr>,
       entry_data = Some \<lparr> count = 1, rrsig_count = 2,
                           rr_data = [with_rdlen caa_rdata, with_rdlen sig0, with_rdlen sig1] \<rparr> \<rparr>"

definition memory2 :: "bool \<Rightarrow> byte list \<Rightarrow> byte list \<Rightarrow> state" where
  "memory2 le sig0 sig1 =
     \<lparr> heap = [1 \<mapsto> caa_set2 le sig0 sig1, 2 \<mapsto> key_set le],
       scratch_buffer = \<lparr> b_data = replicate 64 0, b_position = 0, b_limit = 64 \<rparr> \<rparr>"

text \<open>A key set whose owner name is in upper case, and a DS rrset with one DS of the
  given digest type and digest, for the keytag 0x5A5A and the algorithm 1.\<close>

definition upper_key_set :: "bool \<Rightarrow> ub_packed_rrset_key" where
  "upper_key_set le =
     \<lparr> rk = \<lparr> dname = EXAMPLE_COM, type = htons le 48, rrset_class = htons le 1 \<rparr>,
       entry_data = Some \<lparr> count = 1, rrsig_count = 0,
                           rr_data = [with_rdlen dnskey_rdata] \<rparr> \<rparr>"

definition ds_rdata :: "byte \<Rightarrow> byte list \<Rightarrow> byte list" where
  "ds_rdata digest_type digest = [0x5A, 0x5A, 0x01, digest_type] @ digest"

definition ds_set :: "bool \<Rightarrow> byte list \<Rightarrow> ub_packed_rrset_key" where
  "ds_set le rdata =
     \<lparr> rk = \<lparr> dname = example_com, type = htons le 43, rrset_class = htons le 1 \<rparr>,
       entry_data = Some \<lparr> count = 1, rrsig_count = 0, rr_data = [with_rdlen rdata] \<rparr> \<rparr>"

definition ds_memory :: "bool \<Rightarrow> byte list \<Rightarrow> state" where
  "ds_memory le rdata =
     \<lparr> heap = [2 \<mapsto> upper_key_set le, 3 \<mapsto> ds_set le rdata],
       scratch_buffer = \<lparr> b_data = replicate 64 0xEE, b_position = 7, b_limit = 9 \<rparr> \<rparr>"

section \<open>Properties\<close>

subsection \<open>The verdict of one signature with one key\<close>

lemma dnskey_verify_rrset_sig_cases:
  assumes "dnskey_verify_rrset_sig x s ve rrset dnskey dnskey_idx sig_idx = Some (v, s')"
  shows "v = sec_status_bogus \<or> v = sec_status_unchecked"
  using assms unfolding dnskey_verify_rrset_sig_def
  by (auto simp: Let_def split: Option.bind_splits if_splits prod.splits)

text \<open>
  Claim C1 says that \<^verbatim>\<open>dnskey_verify_rrset_sig\<close>, once the nine checks have passed and
  the canonical form is built, calls the signature backend and returns Secure, Bogus or
  Unchecked as the backend reports, so that Secure is a possible return value.
  The function has no such call: after \<^verbatim>\<open>rrset_canonical\<close> it returns Unchecked. For
  no externs, memory, environment and indices is its verdict Secure, and on the
  example RRSIG, which passes the nine checks, the verdict is Unchecked on a
  little-endian and on a big-endian host.
\<close>

theorem dnskey_verify_rrset_sig_never_secure:
  "verdict (dnskey_verify_rrset_sig x s ve rrset dnskey dnskey_idx sig_idx)
     \<noteq> Some sec_status_secure
   \<and> verdict (verify_example True False good_sig) = Some sec_status_unchecked
   \<and> verdict (verify_example False False good_sig) = Some sec_status_unchecked"
proof -
  have "verdict (dnskey_verify_rrset_sig x s ve rrset dnskey dnskey_idx sig_idx)
          \<noteq> Some sec_status_secure"
  proof
    assume "verdict (dnskey_verify_rrset_sig x s ve rrset dnskey dnskey_idx sig_idx)
              = Some sec_status_secure"
    then obtain s' where
      "dnskey_verify_rrset_sig x s ve rrset dnskey dnskey_idx sig_idx
         = Some (sec_status_secure, s')"
      by (auto simp: verdict_def)
    from dnskey_verify_rrset_sig_cases [OF this] show False by simp
  qed
  moreover have "verdict (verify_example True False good_sig) = Some sec_status_unchecked"
    by code_simp
  moreover have "verdict (verify_example False False good_sig) = Some sec_status_unchecked"
    by code_simp
  ultimately show ?thesis by simp
qed

text \<open>
  Claim C2 says that a call that reaches the date check gives Bogus unless
  \<^verbatim>\<open>sig_inception\<close> (bytes 12..15 of the RDATA), \<^verbatim>\<open>sig_expiration\<close> (bytes 8..11) and
  \<open>now\<close> satisfy inception \<open>\<le>\<close> now \<open>\<le>\<close> expiration in signed 32-bit differences.
  The function passes \<^verbatim>\<open>sig+8\<close> and \<^verbatim>\<open>sig+12\<close> to \<^verbatim>\<open>check_dates\<close>, where \<^verbatim>\<open>sig\<close> still
  points at the 2-byte length: the dates are read at bytes 6..9 and 10..13 of the
  RDATA. The RRSIG \<open>early_sig\<close> has the inception 0x48005A5A, after the pinned date
  0x45000000, and the verdict is Unchecked, not Bogus.
\<close>

theorem dnskey_verify_rrset_sig_misreads_dates:
  "be_value (rrsig_sig_inception early_sig) = 0x48005A5A
   \<and> (0 :: 32 word) <s 0x48005A5A - date_override pinned
   \<and> verdict (verify_example True False early_sig) = Some sec_status_unchecked
   \<and> verdict (verify_example False False early_sig) = Some sec_status_unchecked"
  by code_simp

text \<open>
  Claim C3 says that the verdict is Bogus unless the \<^verbatim>\<open>key_tag\<close> field, the 2 bytes
  after the first 16 bytes of the RRSIG RDATA, equals the keytag of the DNSKEY RDATA.
  The function compares the keytag with the 2 bytes at \<^verbatim>\<open>sig+16\<close>, which are bytes
  14..15 of the RDATA, the end of \<^verbatim>\<open>sig_inception\<close>. The RRSIG \<open>other_tag_sig\<close> has
  the \<^verbatim>\<open>key_tag\<close> 0x1234, the key has the keytag 0x5A5A, and the verdict is Unchecked,
  not Bogus.
\<close>

theorem dnskey_verify_rrset_sig_misreads_keytag:
  "be_value (rrsig_key_tag other_tag_sig) = 0x1234
   \<and> dnskey_calc_keytag (host True False 0) (memory True other_tag_sig) 2 0 = Some 0x5A5A
   \<and> verdict (verify_example True False other_tag_sig) = Some sec_status_unchecked
   \<and> verdict (verify_example False False other_tag_sig) = Some sec_status_unchecked"
  by code_simp

text \<open>
  Claim C4 says that the verdict is Bogus unless the \<^verbatim>\<open>algorithm\<close> field, the byte
  after the 2 bytes of \<^verbatim>\<open>type_covered\<close>, equals the algorithm of the DNSKEY. The
  function compares the algorithm of the DNSKEY with \<^verbatim>\<open>sig[2]\<close>, the first byte of
  \<^verbatim>\<open>type_covered\<close>. The RRSIG \<open>other_algo_sig\<close> has the algorithm 5, the key has the
  algorithm 1, and the verdict is Unchecked, not Bogus.
\<close>

theorem dnskey_verify_rrset_sig_misreads_algorithm:
  "be_value (rrsig_algorithm other_algo_sig) = 5
   \<and> dnskey_get_algo (host True False 0) (memory True other_algo_sig) 2 0 = Some 1
   \<and> verdict (verify_example True False other_algo_sig) = Some sec_status_unchecked
   \<and> verdict (verify_example False False other_algo_sig) = Some sec_status_unchecked"
  by code_simp

text \<open>
  Claim C5 says that the verdict is Bogus when the \<^verbatim>\<open>labels\<close> field, the byte after
  \<^verbatim>\<open>type_covered\<close> and \<^verbatim>\<open>algorithm\<close>, is greater than the label count of the owner
  name. The function compares the label count with \<^verbatim>\<open>sig[3]\<close>, the second byte of
  \<^verbatim>\<open>type_covered\<close>. The RRSIG \<open>many_labels_sig\<close> has 9 labels, the owner name has 2,
  and the verdict is Unchecked, not Bogus; with assertions compiled in, the call
  stops at the assertion of \<^verbatim>\<open>insert_can_owner\<close>.
\<close>

theorem dnskey_verify_rrset_sig_misreads_labels:
  "be_value (rrsig_labels many_labels_sig) = 9
   \<and> dname_signame_label_count (host True False 0) example_com = Some 2
   \<and> verdict (verify_example True False many_labels_sig) = Some sec_status_unchecked
   \<and> verdict (verify_example True True many_labels_sig) = None"
  by code_simp

text \<open>
  Claim C6 says that building the canonical form never modifies a byte of the input
  rrset, the lower-casing of the signer name of the RRSIG included. \<^verbatim>\<open>rrset_canonical\<close>
  calls \<^verbatim>\<open>query_dname_tolower(sig+18)\<close> on the RRSIG RDATA of the rrset, after it
  has copied that RDATA to the buffer. The rrset at address 1 holds \<open>upper_sig\<close>, with
  the signer \<^verbatim>\<open>EXAMPLE.COM.\<close>, before the call, and \<open>good_sig\<close>, with the signer
  \<^verbatim>\<open>example.com.\<close>, after it.
\<close>

theorem rrset_canonical_lowercases_input:
  "heap (memory True upper_sig) 1 = Some (caa_set True upper_sig)
   \<and> rrset_after (verify_example True False upper_sig) 1 = Some (caa_set True good_sig)
   \<and> caa_set True upper_sig \<noteq> caa_set True good_sig"
  by code_simp

subsection \<open>The drivers\<close>

lemma dnskeyset_verify_rrset_sig_loop_bogus:
  "dnskeyset_verify_rrset_sig_loop x ve rrset dnskey sig_idx tag algo i n numchecked s
     = Some (v, s') \<Longrightarrow> v = sec_status_bogus"
proof (induction n arbitrary: i numchecked s)
  case 0
  then show ?case by (simp split: if_splits)
next
  case (Suc n)
  from Suc.prems show ?case
    by (auto split: Option.bind_splits if_splits prod.splits
        dest: Suc.IH dnskey_verify_rrset_sig_cases)
qed

lemma dnskeyset_verify_rrset_sig_bogus:
  "dnskeyset_verify_rrset_sig x s ve rrset dnskey sig_idx = Some (v, s')
     \<Longrightarrow> v = sec_status_bogus"
  unfolding dnskeyset_verify_rrset_sig_def
  by (auto split: Option.bind_splits dest: dnskeyset_verify_rrset_sig_loop_bogus)

text \<open>The loop over the signatures gives Bogus when no call in its body gives Secure.\<close>

lemma verify_rrset_loop_bogus:
  assumes vf: "\<forall>s i v s'. vf s i = Some (v, s') \<longrightarrow> v \<noteq> sec_status_secure"
  shows "verify_rrset_loop vf i n s = Some (v, s') \<Longrightarrow> v = sec_status_bogus"
proof (induction n arbitrary: i s)
  case 0
  then show ?case by simp
next
  case (Suc n)
  from Suc.prems show ?case
    using vf by (auto split: option.splits prod.splits if_splits dest: Suc.IH)
qed

lemma dnskeyset_verify_rrset_bogus:
  assumes "dnskeyset_verify_rrset x s ve rrset dnskey = Some (v, s')"
  shows "v = sec_status_bogus"
proof -
  have vf: "\<forall>s i v s'. dnskeyset_verify_rrset_sig x s ve rrset dnskey i = Some (v, s')
              \<longrightarrow> v \<noteq> sec_status_secure"
    by (auto dest: dnskeyset_verify_rrset_sig_bogus)
  from assms have "v = sec_status_bogus
      \<or> (\<exists>num. verify_rrset_loop (\<lambda>s' i. dnskeyset_verify_rrset_sig x s' ve rrset dnskey i)
                   0 num s = Some (v, s'))"
    unfolding dnskeyset_verify_rrset_def
    by (auto split: Option.bind_splits if_splits)
  then show ?thesis
    using verify_rrset_loop_bogus
      [of "\<lambda>s' i. dnskeyset_verify_rrset_sig x s' ve rrset dnskey i", OF vf]
    by blast
qed

lemma dnskey_verify_rrset_bogus:
  assumes "dnskey_verify_rrset x s ve rrset dnskey dnskey_idx = Some (v, s')"
  shows "v = sec_status_bogus"
proof -
  have vf: "\<forall>s i v s'. dnskey_verify_rrset_sig x s ve rrset dnskey dnskey_idx i = Some (v, s')
              \<longrightarrow> v \<noteq> sec_status_secure"
    by (auto dest: dnskey_verify_rrset_sig_cases)
  from assms have "v = sec_status_bogus
      \<or> (\<exists>num. verify_rrset_loop
                   (\<lambda>s' i. dnskey_verify_rrset_sig x s' ve rrset dnskey dnskey_idx i)
                   0 num s = Some (v, s'))"
    unfolding dnskey_verify_rrset_def
    by (auto split: Option.bind_splits if_splits)
  then show ?thesis
    using verify_rrset_loop_bogus
      [of "\<lambda>s' i. dnskey_verify_rrset_sig x s' ve rrset dnskey dnskey_idx i", OF vf]
    by blast
qed

text \<open>
  Claim C7: for every rrset whose \<^verbatim>\<open>rrsig_count\<close> is 0, both
  \<^verbatim>\<open>dnskeyset_verify_rrset\<close> and \<^verbatim>\<open>dnskey_verify_rrset\<close> return Bogus, whatever the
  key set and the key index are. The rrset has its data (\<^verbatim>\<open>entry.data\<close> is not
  \<^verbatim>\<open>NULL\<close>), where \<^verbatim>\<open>rrsig_count\<close> is; the calls return, and leave the memory as it
  was.
\<close>

theorem verify_rrset_no_signatures:
  assumes "get_data s rrset = Some d" and "rrsig_count d = 0"
  shows "dnskeyset_verify_rrset x s ve rrset dnskey = Some (sec_status_bogus, s)
         \<and> dnskey_verify_rrset x s ve rrset dnskey dnskey_idx = Some (sec_status_bogus, s)"
  using assms
  by (simp add: dnskeyset_verify_rrset_def dnskey_verify_rrset_def rrset_get_sigcount_def)

theorem verify_rrset_no_signatures_witness:
  "get_data (memory True good_sig) 2
     = Some \<lparr> count = 1, rrsig_count = 0, rr_data = [with_rdlen dnskey_rdata] \<rparr>
   \<and> dnskeyset_verify_rrset (host True False 0) (memory True good_sig) pinned 2 2
       = Some (sec_status_bogus, memory True good_sig)
   \<and> dnskey_verify_rrset (host True False 0) (memory True good_sig) pinned 2 2 0
       = Some (sec_status_bogus, memory True good_sig)"
proof -
  have d: "get_data (memory True good_sig) 2
     = Some \<lparr> count = 1, rrsig_count = 0, rr_data = [with_rdlen dnskey_rdata] \<rparr>"
    by (simp add: get_data_def memory_def key_set_def)
  have z: "rrsig_count \<lparr> count = 1, rrsig_count = 0, rr_data = [with_rdlen dnskey_rdata] \<rparr> = 0"
    by simp
  from verify_rrset_no_signatures [OF d z, of "host True False 0" pinned 2 0] d
  show ?thesis by simp
qed

text \<open>The loop over the signatures calls its body for every signature in turn, each
  call in the memory that the call before left, as long as no call gives Secure.\<close>

lemma verify_rrset_loop_trace:
  assumes "\<forall>j<n. vf (st (i + j)) (i + j) = Some (v (i + j), st (Suc (i + j)))
                  \<and> v (i + j) \<noteq> sec_status_secure"
  shows "verify_rrset_loop vf i n (st i) = Some (sec_status_bogus, st (i + n))"
  using assms
proof (induction n arbitrary: i)
  case 0
  then show ?case by simp
next
  case (Suc n)
  from Suc.prems have "vf (st (i + 0)) (i + 0) = Some (v (i + 0), st (Suc (i + 0)))
      \<and> v (i + 0) \<noteq> sec_status_secure"
    by blast
  then have h: "vf (st i) i = Some (v i, st (Suc i))" and ns: "v i \<noteq> sec_status_secure"
    by simp_all
  have "\<forall>j<n. vf (st (Suc i + j)) (Suc i + j) = Some (v (Suc i + j), st (Suc (Suc i + j)))
                \<and> v (Suc i + j) \<noteq> sec_status_secure"
  proof (intro allI impI)
    fix j assume "j < n"
    then have "Suc j < Suc n" by simp
    with Suc.prems have "vf (st (i + Suc j)) (i + Suc j)
        = Some (v (i + Suc j), st (Suc (i + Suc j))) \<and> v (i + Suc j) \<noteq> sec_status_secure"
      by blast
    then show "vf (st (Suc i + j)) (Suc i + j) = Some (v (Suc i + j), st (Suc (Suc i + j)))
        \<and> v (Suc i + j) \<noteq> sec_status_secure"
      by simp
  qed
  from Suc.IH [OF this]
  have "verify_rrset_loop vf (Suc i) n (st (Suc i)) = Some (sec_status_bogus, st (Suc i + n))" .
  with h ns show ?case by simp
qed

lemma dnskey_verify_rrset_trace:
  assumes num: "rrset_get_sigcount s rrset = Some num"
    and s: "st 0 = s"
    and calls: "\<forall>i<num. dnskey_verify_rrset_sig x (st i) ve rrset dnskey dnskey_idx i
                          = Some (v i, st (Suc i))"
  shows "dnskey_verify_rrset x s ve rrset dnskey dnskey_idx = Some (sec_status_bogus, st num)"
proof -
  have "\<forall>j<num. dnskey_verify_rrset_sig x (st (0 + j)) ve rrset dnskey dnskey_idx (0 + j)
                    = Some (v (0 + j), st (Suc (0 + j)))
                  \<and> v (0 + j) \<noteq> sec_status_secure"
    using calls dnskey_verify_rrset_sig_cases by fastforce
  from verify_rrset_loop_trace
    [of num "\<lambda>s' i. dnskey_verify_rrset_sig x s' ve rrset dnskey dnskey_idx i" st 0 v, OF this]
  have "verify_rrset_loop (\<lambda>s' i. dnskey_verify_rrset_sig x s' ve rrset dnskey dnskey_idx i)
          0 num s = Some (sec_status_bogus, st num)"
    by (simp add: s)
  then show ?thesis
    using s by (cases "num = 0") (simp_all add: dnskey_verify_rrset_def num)
qed

lemma dnskeyset_verify_rrset_trace:
  assumes num: "rrset_get_sigcount s rrset = Some num"
    and s: "st 0 = s"
    and calls: "\<forall>i<num. dnskeyset_verify_rrset_sig x (st i) ve rrset dnskey i
                          = Some (v i, st (Suc i))"
  shows "dnskeyset_verify_rrset x s ve rrset dnskey = Some (sec_status_bogus, st num)"
proof -
  have "\<forall>j<num. dnskeyset_verify_rrset_sig x (st (0 + j)) ve rrset dnskey (0 + j)
                    = Some (v (0 + j), st (Suc (0 + j)))
                  \<and> v (0 + j) \<noteq> sec_status_secure"
    using calls dnskeyset_verify_rrset_sig_bogus by fastforce
  from verify_rrset_loop_trace
    [of num "\<lambda>s' i. dnskeyset_verify_rrset_sig x s' ve rrset dnskey i" st 0 v, OF this]
  have "verify_rrset_loop (\<lambda>s' i. dnskeyset_verify_rrset_sig x s' ve rrset dnskey i)
          0 num s = Some (sec_status_bogus, st num)"
    by (simp add: s)
  then show ?thesis
    using s by (cases "num = 0") (simp_all add: dnskeyset_verify_rrset_def num)
qed

text \<open>
  Claim C9: \<^verbatim>\<open>dnskeyset_verify_rrset\<close> and \<^verbatim>\<open>dnskey_verify_rrset\<close> never return
  Unchecked. An Unchecked of \<^verbatim>\<open>dnskey_verify_rrset_sig\<close> for a signature is dropped, the
  loop goes on to the next signature, and the driver returns Bogus when no signature
  gives Secure. As \<^verbatim>\<open>dnskey_verify_rrset_sig\<close> gives Secure for no signature, a driver
  that returns a verdict returns Bogus; a verdict of \<open>None\<close> is a call that does not
  return. For the mechanism, \<open>num\<close> is the number of signatures, \<open>st i\<close> the memory
  before signature \<open>i\<close> is verified and \<open>v i\<close> the verdict for it, Unchecked or Bogus:
  when the call for every signature returns, each in the memory that the call for
  the signature before it left, the driver returns Bogus in the memory \<open>st num\<close>
  that the call for the last signature left. Every signature has been verified,
  whatever the verdicts before it were.
\<close>

theorem verify_rrset_never_unchecked:
  "verdict (dnskeyset_verify_rrset x s ve rrset dnskey) \<noteq> Some sec_status_unchecked
   \<and> verdict (dnskey_verify_rrset x s ve rrset dnskey dnskey_idx) \<noteq> Some sec_status_unchecked
   \<and> (verdict (dnskeyset_verify_rrset x s ve rrset dnskey) = Some sec_status_bogus
        \<or> verdict (dnskeyset_verify_rrset x s ve rrset dnskey) = None)
   \<and> (verdict (dnskey_verify_rrset x s ve rrset dnskey dnskey_idx) = Some sec_status_bogus
        \<or> verdict (dnskey_verify_rrset x s ve rrset dnskey dnskey_idx) = None)
   \<and> (rrset_get_sigcount s rrset = Some num \<and> st 0 = s
        \<and> (\<forall>i<num. dnskey_verify_rrset_sig x (st i) ve rrset dnskey dnskey_idx i
                       = Some (v i, st (Suc i)))
       \<longrightarrow> dnskey_verify_rrset x s ve rrset dnskey dnskey_idx
             = Some (sec_status_bogus, st num))
   \<and> (rrset_get_sigcount s rrset = Some num \<and> st 0 = s
        \<and> (\<forall>i<num. dnskeyset_verify_rrset_sig x (st i) ve rrset dnskey i
                       = Some (v i, st (Suc i)))
       \<longrightarrow> dnskeyset_verify_rrset x s ve rrset dnskey = Some (sec_status_bogus, st num))"
proof -
  have a: "verdict (dnskeyset_verify_rrset x s ve rrset dnskey) = Some sec_status_bogus
        \<or> verdict (dnskeyset_verify_rrset x s ve rrset dnskey) = None"
    by (cases "dnskeyset_verify_rrset x s ve rrset dnskey")
      (auto simp: verdict_def dest: dnskeyset_verify_rrset_bogus)
  have b: "verdict (dnskey_verify_rrset x s ve rrset dnskey dnskey_idx) = Some sec_status_bogus
        \<or> verdict (dnskey_verify_rrset x s ve rrset dnskey dnskey_idx) = None"
    by (cases "dnskey_verify_rrset x s ve rrset dnskey dnskey_idx")
      (auto simp: verdict_def dest: dnskey_verify_rrset_bogus)
  have c: "rrset_get_sigcount s rrset = Some num \<and> st 0 = s
        \<and> (\<forall>i<num. dnskey_verify_rrset_sig x (st i) ve rrset dnskey dnskey_idx i
                       = Some (v i, st (Suc i)))
       \<longrightarrow> dnskey_verify_rrset x s ve rrset dnskey dnskey_idx
             = Some (sec_status_bogus, st num)"
    using dnskey_verify_rrset_trace [of s rrset num st x ve dnskey dnskey_idx v] by blast
  have d: "rrset_get_sigcount s rrset = Some num \<and> st 0 = s
        \<and> (\<forall>i<num. dnskeyset_verify_rrset_sig x (st i) ve rrset dnskey i
                       = Some (v i, st (Suc i)))
       \<longrightarrow> dnskeyset_verify_rrset x s ve rrset dnskey = Some (sec_status_bogus, st num)"
    using dnskeyset_verify_rrset_trace [of s rrset num st x ve dnskey v] by blast
  from a b have "verdict (dnskeyset_verify_rrset x s ve rrset dnskey) \<noteq> Some sec_status_unchecked"
    and "verdict (dnskey_verify_rrset x s ve rrset dnskey dnskey_idx) \<noteq> Some sec_status_unchecked"
    by auto
  with a b c d show ?thesis by blast
qed

text \<open>On the rrset with two RRSIGs, both with the signer in upper case, each of the two
  signatures gives Unchecked with the key, both drivers return Bogus, and after
  either driver the signer names of both RRSIGs are in lower case: the second
  signature has been verified after the Unchecked of the first.\<close>

theorem verify_rrset_never_unchecked_witness:
  "verdict (dnskey_verify_rrset_sig (host True False 0) (memory2 True upper_sig upper_sig)
              pinned 1 2 0 0) = Some sec_status_unchecked
   \<and> verdict (dnskey_verify_rrset (host True False 0) (memory2 True upper_sig upper_sig)
              pinned 1 2 0) = Some sec_status_bogus
   \<and> rrset_after (dnskey_verify_rrset (host True False 0) (memory2 True upper_sig upper_sig)
              pinned 1 2 0) 1 = Some (caa_set2 True good_sig good_sig)
   \<and> verdict (dnskeyset_verify_rrset (host True False 0) (memory2 True upper_sig upper_sig)
              pinned 1 2) = Some sec_status_bogus
   \<and> rrset_after (dnskeyset_verify_rrset (host True False 0) (memory2 True upper_sig upper_sig)
              pinned 1 2) 1 = Some (caa_set2 True good_sig good_sig)"
proof -
  let ?x = "host True False 0"
  let ?s0 = "memory2 True upper_sig upper_sig"
  have u: "verdict (dnskey_verify_rrset_sig ?x ?s0 pinned 1 2 0 0) = Some sec_status_unchecked"
    by code_simp
  have num: "rrset_get_sigcount ?s0 1 = Some 2"
    by code_simp
  define r0 where "r0 = dnskey_verify_rrset_sig ?x ?s0 pinned 1 2 0 0"
  define r1 where "r1 = dnskey_verify_rrset_sig ?x (snd (the r0)) pinned 1 2 0 1"
  define st where "st = (\<lambda>i :: nat. if i = 0 then ?s0 else if i = 1 then snd (the r0)
                                  else snd (the r1))"
  define v where "v = (\<lambda>i :: nat. if i = 0 then fst (the r0) else fst (the r1))"
  have "r0 \<noteq> None" unfolding r0_def by code_simp
  then have c0: "r0 = Some (fst (the r0), snd (the r0))" by auto
  have "r1 \<noteq> None" unfolding r1_def r0_def by code_simp
  then have c1: "r1 = Some (fst (the r1), snd (the r1))" by auto
  have calls: "\<forall>i<2. dnskey_verify_rrset_sig ?x (st i) pinned 1 2 0 i = Some (v i, st (Suc i))"
  proof (intro allI impI)
    fix i :: nat assume "i < 2"
    then consider "i = 0" | "i = 1" by linarith
    then show "dnskey_verify_rrset_sig ?x (st i) pinned 1 2 0 i = Some (v i, st (Suc i))"
    proof cases
      case 1
      with c0 show ?thesis by (simp add: st_def v_def r0_def)
    next
      case 2
      with c1 show ?thesis by (simp add: st_def v_def r1_def)
    qed
  qed
  have st0: "st 0 = ?s0" by (simp add: st_def)
  from verify_rrset_never_unchecked [of ?x ?s0 pinned 1 2 0 2 st v] num st0 calls
  have "dnskey_verify_rrset ?x ?s0 pinned 1 2 0 = Some (sec_status_bogus, st 2)"
    by blast
  then have D: "dnskey_verify_rrset ?x ?s0 pinned 1 2 0 = Some (sec_status_bogus, snd (the r1))"
    by (simp add: st_def)
  have h: "heap (snd (the r1)) 1 = Some (caa_set2 True good_sig good_sig)"
    unfolding r1_def r0_def by code_simp
  define q0 where "q0 = dnskeyset_verify_rrset_sig ?x ?s0 pinned 1 2 0"
  define q1 where "q1 = dnskeyset_verify_rrset_sig ?x (snd (the q0)) pinned 1 2 1"
  define st' where "st' = (\<lambda>i :: nat. if i = 0 then ?s0 else if i = 1 then snd (the q0)
                                   else snd (the q1))"
  define v' where "v' = (\<lambda>i :: nat. if i = 0 then fst (the q0) else fst (the q1))"
  have "q0 \<noteq> None" unfolding q0_def by code_simp
  then have e0: "q0 = Some (fst (the q0), snd (the q0))" by auto
  have "q1 \<noteq> None" unfolding q1_def q0_def by code_simp
  then have e1: "q1 = Some (fst (the q1), snd (the q1))" by auto
  have calls': "\<forall>i<2. dnskeyset_verify_rrset_sig ?x (st' i) pinned 1 2 i
                         = Some (v' i, st' (Suc i))"
  proof (intro allI impI)
    fix i :: nat assume "i < 2"
    then consider "i = 0" | "i = 1" by linarith
    then show "dnskeyset_verify_rrset_sig ?x (st' i) pinned 1 2 i = Some (v' i, st' (Suc i))"
    proof cases
      case 1
      with e0 show ?thesis by (simp add: st'_def v'_def q0_def)
    next
      case 2
      with e1 show ?thesis by (simp add: st'_def v'_def q1_def)
    qed
  qed
  have st0': "st' 0 = ?s0" by (simp add: st'_def)
  from verify_rrset_never_unchecked [of ?x ?s0 pinned 1 2 0 2 st' v'] num st0' calls'
  have "dnskeyset_verify_rrset ?x ?s0 pinned 1 2 = Some (sec_status_bogus, st' 2)"
    by blast
  then have E: "dnskeyset_verify_rrset ?x ?s0 pinned 1 2 = Some (sec_status_bogus, snd (the q1))"
    by (simp add: st'_def)
  have h': "heap (snd (the q1)) 1 = Some (caa_set2 True good_sig good_sig)"
    unfolding q1_def q0_def by code_simp
  from u D E h h' show ?thesis
    by (simp add: verdict_def rrset_after_def)
qed

subsection \<open>The date check\<close>

lemma byte_bit_ge: "8 \<le> n \<Longrightarrow> bit b n = False" for b :: byte
  by (auto dest: bit_imp_le_length)

text \<open>Swapping the bytes of a word loaded on a little-endian host gives the
  big-endian reading of the bytes.\<close>

lemma bswap32_bytes:
  "bswap32 (push_bit 24 (ucast b3) OR push_bit 16 (ucast b2) OR push_bit 8 (ucast b1) OR ucast b0)
     = push_bit 24 (ucast b0) OR push_bit 16 (ucast b1) OR push_bit 8 (ucast b2) OR ucast b3"
  for b0 b1 b2 b3 :: byte
  unfolding bswap32_def
proof (rule bit_word_eqI)
  fix n :: nat
  assume "n < LENGTH(32)"
  consider "n < 8" | "8 \<le> n" "n < 16" | "16 \<le> n" "n < 24" | "24 \<le> n" by linarith
  then show "bit (push_bit 24 (push_bit 24 (ucast b3) OR push_bit 16 (ucast b2)
                     OR push_bit 8 (ucast b1) OR ucast b0 :: 32 word)
       OR push_bit 16 (take_bit 8 (drop_bit 8 (push_bit 24 (ucast b3) OR push_bit 16 (ucast b2)
                     OR push_bit 8 (ucast b1) OR ucast b0)))
       OR push_bit 8 (take_bit 8 (drop_bit 16 (push_bit 24 (ucast b3) OR push_bit 16 (ucast b2)
                     OR push_bit 8 (ucast b1) OR ucast b0)))
       OR drop_bit 24 (push_bit 24 (ucast b3) OR push_bit 16 (ucast b2)
                     OR push_bit 8 (ucast b1) OR ucast b0)) n
     = bit (push_bit 24 (ucast b0) OR push_bit 16 (ucast b1) OR push_bit 8 (ucast b2)
              OR ucast b3 :: 32 word) n"
  proof cases
    case 1
    then show ?thesis by (auto simp: bit_simps byte_bit_ge)
  next
    case 2
    then show ?thesis by (auto simp: bit_simps byte_bit_ge)
  next
    case 3
    then show ?thesis by (auto simp: bit_simps byte_bit_ge)
  next
    case 4
    then show ?thesis using \<open>n < LENGTH(32)\<close> by (auto simp: bit_simps byte_bit_ge)
  qed
qed

lemma ntohl_load32:
  "map_option (ntohl le) (load32 le m) = be32 m"
proof (cases le)
  case False
  then show ?thesis by (cases "load32 False m") (simp_all add: ntohl_def be32_def)
next
  case True
  then show ?thesis
    by (auto simp: load32_def ntohl_def be32_def bswap32_bytes split: list.splits)
qed

lemma int32_sub_apart:
  "int32_sub a b = (if apart a b then None else Some (sint a - sint b))"
  by (auto simp: int32_sub_def apart_def)

lemma window_code:
  "(case int32_sub i e of
      None \<Rightarrow> None
    | Some d1 \<Rightarrow>
        if 0 < d1 then Some False
        else (case int32_sub i n of
                None \<Rightarrow> None
              | Some d2 \<Rightarrow>
                  if 0 < d2 then Some False
                  else (case int32_sub n e of
                          None \<Rightarrow> None
                        | Some d3 \<Rightarrow> if 0 < d3 then Some False else Some True)))
   = date_window i e n"
  by (simp add: int32_sub_apart date_window_def)

text \<open>
  Claim C10: when \<^verbatim>\<open>date_override\<close> is 0, \<^verbatim>\<open>check_dates\<close> takes \<open>now\<close> from the system
  clock, so that an override of 0 is no override and the date cannot be pinned to 0;
  every other value of \<^verbatim>\<open>date_override\<close> is \<open>now\<close> as it is. With that \<open>now\<close>, the
  result is the date window of the big-endian dates at the two pointers, on a host
  of either byte order; there is no result where a difference that the function
  takes overflows.
\<close>

theorem check_dates_now:
  "check_dates x ve expi_p incep_p =
     (case be32 expi_p of
        None \<Rightarrow> None
      | Some expi \<Rightarrow>
          (case be32 incep_p of
             None \<Rightarrow> None
           | Some incep \<Rightarrow>
               date_window incep expi
                 (if date_override ve = 0 then word_of_int (time_now x)
                  else date_override ve)))"
proof -
  have e: "be32 expi_p = map_option (ntohl (little_endian x)) (load32 (little_endian x) expi_p)"
    by (simp add: ntohl_load32)
  have i: "be32 incep_p = map_option (ntohl (little_endian x)) (load32 (little_endian x) incep_p)"
    by (simp add: ntohl_load32)
  show ?thesis
  proof (cases "load32 (little_endian x) expi_p")
    case None
    then show ?thesis by (simp add: e check_dates_def)
  next
    case E: (Some e0)
    show ?thesis
    proof (cases "load32 (little_endian x) incep_p")
      case None
      with E show ?thesis by (simp add: e i check_dates_def)
    next
      case I: (Some i0)
      let ?now = "if date_override ve = 0 then word_of_int (time_now x) else date_override ve"
      have n: "(if date_override ve \<noteq> 0 then date_override ve else word_of_int (time_now x))
                 = ?now"
        by simp
      have "check_dates x ve expi_p incep_p
              = (case int32_sub (ntohl (little_endian x) i0) (ntohl (little_endian x) e0) of
                   None \<Rightarrow> None
                 | Some d1 \<Rightarrow>
                     if 0 < d1 then Some False
                     else (case int32_sub (ntohl (little_endian x) i0) ?now of
                             None \<Rightarrow> None
                           | Some d2 \<Rightarrow>
                               if 0 < d2 then Some False
                               else (case int32_sub ?now (ntohl (little_endian x) e0) of
                                       None \<Rightarrow> None
                                     | Some d3 \<Rightarrow>
                                         if 0 < d3 then Some False else Some True)))"
        unfolding check_dates_def E I Let_def n
        by (simp split: option.splits)
      also have "\<dots> = date_window (ntohl (little_endian x) i0) (ntohl (little_endian x) e0) ?now"
        by (rule window_code)
      finally show ?thesis
        by (simp add: e i E I)
    qed
  qed
qed

text \<open>With the dates 1000 to 2000: an override of 1500 is inside the window whatever the
  clock reads, and with an override of 0 the clock decides, so that the date 0,
  before the window, cannot be pinned. With the dates 0x7FFFFFF0 to 0x80000010, the
  first difference overflows and there is no result.\<close>

theorem check_dates_now_witness:
  "check_dates (host True False 5000) \<lparr> date_override = 1500 \<rparr>
       [0x00, 0x00, 0x07, 0xD0] [0x00, 0x00, 0x03, 0xE8] = Some True
   \<and> check_dates (host True False 1500) \<lparr> date_override = 0 \<rparr>
       [0x00, 0x00, 0x07, 0xD0] [0x00, 0x00, 0x03, 0xE8] = Some True
   \<and> check_dates (host True False 5000) \<lparr> date_override = 0 \<rparr>
       [0x00, 0x00, 0x07, 0xD0] [0x00, 0x00, 0x03, 0xE8] = Some False
   \<and> check_dates (host True False 5000) \<lparr> date_override = 0x7FFFFFF8 \<rparr>
       [0x80, 0x00, 0x00, 0x10] [0x7F, 0xFF, 0xFF, 0xF0] = None"
proof -
  have e: "be32 [0x00, 0x00, 0x07, 0xD0] = Some 2000"
    by (simp add: be32_def load32_def)
  have i: "be32 [0x00, 0x00, 0x03, 0xE8] = Some 1000"
    by (simp add: be32_def load32_def)
  have e2: "be32 [0x80, 0x00, 0x00, 0x10] = Some 0x80000010"
    by (simp add: be32_def load32_def)
  have i2: "be32 [0x7F, 0xFF, 0xFF, 0xF0] = Some 0x7FFFFFF0"
    by (simp add: be32_def load32_def)
  have w: "date_window 1000 2000 1500 = Some True" "date_window 1000 2000 5000 = Some False"
    "date_window 0x7FFFFFF0 0x80000010 0x7FFFFFF8 = None"
    by (simp_all add: date_window_def apart_def)
  show ?thesis
    using check_dates_now [of "host True False 5000" "\<lparr> date_override = 1500 \<rparr>"
        "[0x00, 0x00, 0x07, 0xD0]" "[0x00, 0x00, 0x03, 0xE8]"]
      check_dates_now [of "host True False 1500" "\<lparr> date_override = 0 \<rparr>"
        "[0x00, 0x00, 0x07, 0xD0]" "[0x00, 0x00, 0x03, 0xE8]"]
      check_dates_now [of "host True False 5000" "\<lparr> date_override = 0 \<rparr>"
        "[0x00, 0x00, 0x07, 0xD0]" "[0x00, 0x00, 0x03, 0xE8]"]
      check_dates_now [of "host True False 5000" "\<lparr> date_override = 0x7FFFFFF8 \<rparr>"
        "[0x80, 0x00, 0x00, 0x10]" "[0x7F, 0xFF, 0xFF, 0xF0]"]
    by (simp add: e i e2 i2 w host_def)
qed

subsection \<open>The DS digest\<close>

lemma take1_drop: "n < length xs \<Longrightarrow> take (Suc 0) (drop n xs) = [xs ! n]"
  by (simp add: Cons_nth_drop_Suc [symmetric])

lemma ds_digest_type_value:
  "be_value (ds_digest_type (drop 2 rr)) = (if length rr < 6 then 0 else uint (rr ! 5))"
  by (simp add: ds_digest_type_def be_value_def take1_drop)

lemma ds_digest_size_algo_eq:
  assumes "rrset_get_rdata x s k idx = Some rr"
  shows "ds_digest_size_algo x s k idx
           = Some (digest_size (be_value (ds_digest_type (drop 2 rr))))"
  using assms
  by (simp add: ds_digest_size_algo_def ds_get_digest_algo_def ds_digest_type_value
      digest_size_def LDNS_SHA1_def LDNS_SHA256_def SHA_DIGEST_LENGTH_def
      SHA256_DIGEST_LENGTH_def)

lemma ds_get_sigdata_eq:
  assumes "rrset_get_rdata x s k idx = Some rr"
  shows "ds_get_sigdata x s k idx
           = Some (if length rr < 7 then (None, 0)
                   else (Some (ds_digest (drop 2 rr)), length (ds_digest (drop 2 rr))))"
  using assms by (simp add: ds_get_sigdata_def ds_digest_def)

lemma ds_digest_short: "length rr < 7 \<Longrightarrow> length (ds_digest (drop 2 rr)) = 0"
  by (simp add: ds_digest_def)

lemma ds_create_dnskey_digest_eq:
  assumes ds: "rrset_get_rdata x s ds_rrset ds_idx = Some ds_rr"
    and dt: "dt = be_value (ds_digest_type (drop 2 ds_rr))"
    and sz: "digest_size dt \<noteq> 0"
    and key: "heap s dnskey_rrset = Some key"
    and krr: "rrset_get_rdata x s dnskey_rrset dnskey_idx = Some key_rr"
    and len: "2 \<le> length key_rr"
    and cap: "length (dname (rk key)) + (length key_rr - 2) \<le> length (b_data (scratch_buffer s))"
    and low: "query_dname_tolower x
                (dname (rk key) @ drop (length (dname (rk key))) (b_data (scratch_buffer s)))
              = Some (lowered @ rest)"
    and ll: "length lowered = length (dname (rk key))"
    and lr: "length rest = length (b_data (scratch_buffer s)) - length (dname (rk key))"
  shows "map_option fst (ds_create_dnskey_digest x s dnskey_rrset dnskey_idx ds_rrset ds_idx)
           = Some (Some (digest_hash x dt (lowered @ drop 2 key_rr)))"
proof -
  have sub: "size_sub (size_t_bits x) (length key_rr) 2 = length key_rr - 2"
    using len by (simp add: size_sub_def)
  have alg: "ds_get_digest_algo x (s\<lparr>scratch_buffer := b\<rparr>) ds_rrset ds_idx = Some dt" for b
    using ds sz
    by (simp add: ds_get_digest_algo_def rrset_get_rdata_def dt ds_digest_type_value
        digest_size_def split: if_splits)
  have dt12: "dt = 1 \<or> dt = 2"
    using sz by (simp add: digest_size_def split: if_splits)
  show ?thesis
    unfolding ds_create_dnskey_digest_def
    using dt12 cap len ll lr low
    by (auto simp add: krr key sub alg Let_def digest_hash_def
        ldns_buffer_write_def ldns_buffer_clear_def ldns_buffer_flip_def ldns_buffer_begin_def
        ldns_buffer_limit_def query_dname_tolower_at_def mem_from_def dname_len_def
        LDNS_SHA1_def LDNS_SHA256_def)
qed


lemma memcmp_eq_same_length:
  "length a = n \<Longrightarrow> length b = n \<Longrightarrow> memcmp_eq a b n = Some (a = b)"
  by (simp add: memcmp_eq_def)

text \<open>With the functions given for concrete inputs, \<^verbatim>\<open>query_dname_tolower\<close> on a valid
  name followed by other bytes lower-cases the name byte by byte and leaves the other
  bytes: a length byte of a valid name is below 64 and no letter.\<close>

lemma length_byte_tolower:
  assumes "l AND 0xC0 = 0"
  shows "tolower l = l"
proof -
  have "bit (l AND 0xC0) 6 = bit (0 :: byte) 6"
    using assms by simp
  then have b6: "\<not> bit l 6"
    by (simp add: bit_simps)
  have "\<not> (0x41 \<le> l \<and> l \<le> 0x5A)"
  proof
    assume "0x41 \<le> l \<and> l \<le> 0x5A"
    then have "65 \<le> unat l" and "unat l \<le> 90"
      by (simp_all add: word_le_nat_alt)
    then have "unat l div 2 ^ 6 = 1"
      by simp
    then have "bit (unat l) 6"
      by (simp add: bit_iff_odd)
    then have "bit l 6"
      by (simp add: bit_unsigned_iff)
    with b6 show False by simp
  qed
  then show ?thesis by (simp add: tolower_def)
qed

lemma query_dname_tolower_impl_valid:
  "dname_valid_loop d len maxlen = Some (len + length d)
     \<Longrightarrow> query_dname_tolower_impl (d @ junk) = Some (map tolower d @ junk)"
proof (induction d len maxlen rule: dname_valid_loop.induct)
  case (1 len maxlen)
  then show ?case by simp
next
  case (2 l rest len maxlen)
  show ?case
  proof (cases "l = 0")
    case True
    with "2.prems" have "rest = []" by (auto split: if_splits)
    with True show ?thesis by (simp add: tolower_def)
  next
    case False
    with "2.prems" have ptr: "l AND 0xC0 = 0"
      and fits: "\<not> 255 \<le> len + unat l + 1" "\<not> maxlen < len + unat l + 1"
      and rec: "dname_valid_loop (drop (unat l) rest) (len + unat l + 1) maxlen
                  = Some (len + length (l # rest))"
      by (auto split: if_splits)
    have le: "unat l \<le> length rest"
    proof (rule ccontr)
      assume "\<not> unat l \<le> length rest"
      then have "drop (unat l) rest = []" by simp
      with rec show False by simp
    qed
    then have eq: "len + length (l # rest) = (len + unat l + 1) + length (drop (unat l) rest)"
      by simp
    have ih: "query_dname_tolower_impl (drop (unat l) rest @ junk)
                = Some (map tolower (drop (unat l) rest) @ junk)"
      using "2.IH" [OF False _ fits] ptr rec eq by simp
    have "map tolower (take (unat l) rest) @ map tolower (drop (unat l) rest) = map tolower rest"
      by (simp add: map_append [symmetric] del: map_append)
    then show ?thesis
      using False le ih length_byte_tolower [OF ptr] by simp
  qed
qed

lemma host_tolower_valid_name:
  assumes "dname_valid (host le dbg t) d (length d) = Some (length d)"
  shows "query_dname_tolower (host le dbg t) (d @ junk) = Some (map tolower d @ junk)"
  using assms query_dname_tolower_impl_valid [of d 0 "length d" junk]
  by (simp add: host_def dname_valid_impl_def)

text \<open>
  Claim C8: \<^verbatim>\<open>ds_digest_match_dnskey\<close> returns false when the digest type of the DS is
  unsupported (digest size 0) or the length of the digest field differs from the
  digest size; otherwise, when the scratch allocation succeeds, it returns true
  exactly when the hash of the digest type (SHA-1 for type 1, SHA-256 for type 2) of
  the lower-cased owner name of the DNSKEY followed by the DNSKEY RDATA without its
  length prefix equals the digest field. \<open>ds_rr\<close> is the DS entry and \<open>key_rr\<close> the
  DNSKEY entry, both with their 2-byte length; \<open>lowered\<close> is the owner name as
  \<^verbatim>\<open>query_dname_tolower\<close> leaves it in the buffer, \<open>rest\<close> the buffer behind it. The
  DNSKEY entry exists and has its length prefix, the buffer holds the owner name and
  the RDATA, and the hash gives a digest of its size.
\<close>

theorem ds_digest_match_dnskey_result:
  assumes ds: "rrset_get_rdata x s ds_rrset ds_idx = Some ds_rr"
    and dt: "dt = be_value (ds_digest_type (drop 2 ds_rr))"
    and dg: "dg = ds_digest (drop 2 ds_rr)"
  shows "(digest_size dt = 0 \<or> length dg \<noteq> digest_size dt
            \<longrightarrow> ds_digest_match_dnskey x s dnskey_rrset dnskey_idx ds_rrset ds_idx
                  = Some (False, s))
       \<and> (digest_size dt \<noteq> 0 \<and> length dg = digest_size dt
          \<and> region_alloc x (digest_size dt)
          \<and> heap s dnskey_rrset = Some key
          \<and> rrset_get_rdata x s dnskey_rrset dnskey_idx = Some key_rr
          \<and> 2 \<le> length key_rr
          \<and> length (dname (rk key)) + (length key_rr - 2) \<le> length (b_data (scratch_buffer s))
          \<and> query_dname_tolower x
                (dname (rk key) @ drop (length (dname (rk key))) (b_data (scratch_buffer s)))
              = Some (lowered @ rest)
          \<and> length lowered = length (dname (rk key))
          \<and> length rest = length (b_data (scratch_buffer s)) - length (dname (rk key))
          \<and> length (digest_hash x dt (lowered @ drop 2 key_rr)) = digest_size dt
            \<longrightarrow> map_option fst
                  (ds_digest_match_dnskey x s dnskey_rrset dnskey_idx ds_rrset ds_idx)
                  = Some (digest_hash x dt (lowered @ drop 2 key_rr) = dg))"
proof (intro conjI impI)
  assume a: "digest_size dt = 0 \<or> length dg \<noteq> digest_size dt"
  have size: "ds_digest_size_algo x s ds_rrset ds_idx = Some (digest_size dt)"
    unfolding dt by (rule ds_digest_size_algo_eq [OF ds])
  have sig: "ds_get_sigdata x s ds_rrset ds_idx
               = Some (if length ds_rr < 7 then (None, 0) else (Some dg, length dg))"
    unfolding dg by (rule ds_get_sigdata_eq [OF ds])
  show "ds_digest_match_dnskey x s dnskey_rrset dnskey_idx ds_rrset ds_idx = Some (False, s)"
  proof (cases "digest_size dt = 0")
    case True
    then show ?thesis by (simp add: ds_digest_match_dnskey_def size)
  next
    case False
    with a have "length dg \<noteq> digest_size dt" by simp
    with False show ?thesis by (simp add: ds_digest_match_dnskey_def size sig)
  qed
next
  assume b: "digest_size dt \<noteq> 0 \<and> length dg = digest_size dt
          \<and> region_alloc x (digest_size dt)
          \<and> heap s dnskey_rrset = Some key
          \<and> rrset_get_rdata x s dnskey_rrset dnskey_idx = Some key_rr
          \<and> 2 \<le> length key_rr
          \<and> length (dname (rk key)) + (length key_rr - 2) \<le> length (b_data (scratch_buffer s))
          \<and> query_dname_tolower x
                (dname (rk key) @ drop (length (dname (rk key))) (b_data (scratch_buffer s)))
              = Some (lowered @ rest)
          \<and> length lowered = length (dname (rk key))
          \<and> length rest = length (b_data (scratch_buffer s)) - length (dname (rk key))
          \<and> length (digest_hash x dt (lowered @ drop 2 key_rr)) = digest_size dt"
  let ?h = "digest_hash x dt (lowered @ drop 2 key_rr)"
  have size: "ds_digest_size_algo x s ds_rrset ds_idx = Some (digest_size dt)"
    unfolding dt by (rule ds_digest_size_algo_eq [OF ds])
  have long: "\<not> length ds_rr < 7"
    using b ds_digest_short [of ds_rr] by (auto simp: dg)
  have sig: "ds_get_sigdata x s ds_rrset ds_idx = Some (Some dg, length dg)"
    using ds_get_sigdata_eq [OF ds] long by (simp add: dg)
  from b have sz: "digest_size dt \<noteq> 0"
    and key: "heap s dnskey_rrset = Some key"
    and krr: "rrset_get_rdata x s dnskey_rrset dnskey_idx = Some key_rr"
    and len: "2 \<le> length key_rr"
    and cap: "length (dname (rk key)) + (length key_rr - 2)
                \<le> length (b_data (scratch_buffer s))"
    and low: "query_dname_tolower x
                (dname (rk key) @ drop (length (dname (rk key))) (b_data (scratch_buffer s)))
              = Some (lowered @ rest)"
    and ll: "length lowered = length (dname (rk key))"
    and lr: "length rest = length (b_data (scratch_buffer s)) - length (dname (rk key))"
    by blast+
  have "map_option fst (ds_create_dnskey_digest x s dnskey_rrset dnskey_idx ds_rrset ds_idx)
          = Some (Some ?h)"
    by (rule ds_create_dnskey_digest_eq [OF ds dt sz key krr len cap low ll lr])
  then obtain s2 where
    cr: "ds_create_dnskey_digest x s dnskey_rrset dnskey_idx ds_rrset ds_idx = Some (Some ?h, s2)"
    by auto
  from b have dl: "length dg = digest_size dt"
    and al: "region_alloc x (digest_size dt)"
    and hl: "length ?h = digest_size dt"
    by blast+
  have cmp: "memcmp_eq ?h dg (digest_size dt) = Some (?h = dg)"
    by (rule memcmp_eq_same_length [OF hl dl])
  show "map_option fst (ds_digest_match_dnskey x s dnskey_rrset dnskey_idx ds_rrset ds_idx)
          = Some (?h = dg)"
    using sz by (auto simp add: ds_digest_match_dnskey_def size sig cr cmp dl al)
qed

text \<open>With the stand-in hash: a DS of digest type 1 whose digest is the hash of
  \<^verbatim>\<open>example.com.\<close> and the DNSKEY RDATA matches the key whose owner is
  \<^verbatim>\<open>EXAMPLE.COM.\<close>, one with another digest does not, and a DS of digest type 4 is
  refused.\<close>

theorem ds_digest_match_dnskey_result_witness:
  "map_option fst (ds_digest_match_dnskey (host True False 0)
       (ds_memory True (ds_rdata 1 (replicate 20 0xC8))) 2 0 3 0) = Some True
   \<and> map_option fst (ds_digest_match_dnskey (host True False 0)
       (ds_memory True (ds_rdata 1 (replicate 20 0xC9))) 2 0 3 0) = Some False
   \<and> ds_digest_match_dnskey (host True False 0)
       (ds_memory True (ds_rdata 4 (replicate 48 0xC8))) 2 0 3 0
       = Some (False, ds_memory True (ds_rdata 4 (replicate 48 0xC8)))"
proof -
  let ?x = "host True False 0"
  let ?key_rr = "with_rdlen dnskey_rdata"
  let ?rest = "replicate 51 0xEE :: byte list"
  have match: "map_option fst (ds_digest_match_dnskey ?x (ds_memory True (ds_rdata 1 dg)) 2 0 3 0)
                 = Some (digest_hash ?x 1 (example_com @ drop 2 ?key_rr) = dg)"
    if "length dg = 20" for dg
  proof -
    let ?s = "ds_memory True (ds_rdata 1 dg)"
    have ds: "rrset_get_rdata ?x ?s 3 0 = Some (with_rdlen (ds_rdata 1 dg))"
      by (simp add: rrset_get_rdata_def ds_memory_def ds_set_def log_assert_def nth_opt_def)
    have dt: "1 = be_value (ds_digest_type (drop 2 (with_rdlen (ds_rdata 1 dg))))"
      by (simp add: with_rdlen_def mem16_def ds_rdata_def ds_digest_type_def be_value_def)
    have dg: "dg = ds_digest (drop 2 (with_rdlen (ds_rdata 1 dg)))"
      by (simp add: with_rdlen_def mem16_def ds_rdata_def ds_digest_def)
    have k: "heap ?s 2 = Some (upper_key_set True)"
      by (simp add: ds_memory_def)
    have krr: "rrset_get_rdata ?x ?s 2 0 = Some ?key_rr"
      by (simp add: rrset_get_rdata_def ds_memory_def upper_key_set_def log_assert_def
          nth_opt_def)
    have low: "query_dname_tolower ?x
                 (dname (rk (upper_key_set True))
                    @ drop (length (dname (rk (upper_key_set True)))) (b_data (scratch_buffer ?s)))
               = Some (example_com @ ?rest)"
      unfolding ds_memory_def by code_simp
    have len: "2 \<le> length ?key_rr"
      by code_simp
    have cap: "length (dname (rk (upper_key_set True))) + (length ?key_rr - 2)
            \<le> length (b_data (scratch_buffer ?s))"
      unfolding ds_memory_def by code_simp
    have ll: "length example_com = length (dname (rk (upper_key_set True)))"
      by code_simp
    have lr: "length ?rest = length (b_data (scratch_buffer ?s))
                          - length (dname (rk (upper_key_set True)))"
      unfolding ds_memory_def by code_simp
    have hl: "length (digest_hash ?x 1 (example_com @ drop 2 ?key_rr)) = digest_size 1"
      by (simp add: digest_hash_def host_def sum_digest_def digest_size_def
          SHA_DIGEST_LENGTH_def)
    have al: "region_alloc ?x (digest_size 1)"
      by (simp add: host_def)
    have sz: "digest_size 1 \<noteq> 0"
      by (simp add: digest_size_def)
    have dl: "length dg = digest_size 1"
      using that by (simp add: digest_size_def)
    from ds_digest_match_dnskey_result [OF ds dt dg, of 2 0 "upper_key_set True" ?key_rr
        example_com ?rest]
      sz dl al k krr len cap low ll lr hl
    show ?thesis by blast
  qed
  have t: "(digest_hash ?x 1 (example_com @ drop 2 ?key_rr) = replicate 20 0xC8) = True"
    by code_simp
  have f: "(digest_hash ?x 1 (example_com @ drop 2 ?key_rr) = replicate 20 0xC9) = False"
    by code_simp
  have unsupported: "ds_digest_match_dnskey ?x (ds_memory True (ds_rdata 4 dg)) 2 0 3 0
                       = Some (False, ds_memory True (ds_rdata 4 dg))" for dg
  proof -
    let ?s = "ds_memory True (ds_rdata 4 dg)"
    have ds: "rrset_get_rdata ?x ?s 3 0 = Some (with_rdlen (ds_rdata 4 dg))"
      by (simp add: rrset_get_rdata_def ds_memory_def ds_set_def log_assert_def nth_opt_def)
    have dt: "4 = be_value (ds_digest_type (drop 2 (with_rdlen (ds_rdata 4 dg))))"
      by (simp add: with_rdlen_def mem16_def ds_rdata_def ds_digest_type_def be_value_def)
    have dg: "dg = ds_digest (drop 2 (with_rdlen (ds_rdata 4 dg)))"
      by (simp add: with_rdlen_def mem16_def ds_rdata_def ds_digest_def)
    have sz: "digest_size 4 = 0"
      by (simp add: digest_size_def)
    from ds_digest_match_dnskey_result [OF ds dt dg, of 2 0] sz
    show ?thesis by blast
  qed
  from match [of "replicate 20 0xC8"] match [of "replicate 20 0xC9"] t f unsupported
  show ?thesis by simp
qed


end
